theory Spec2Isabelle
  imports Main "HOL-Library.Word" "HOL-Library.Tree"
begin

unbundle bit_operations_syntax

section \<open>RTP retransmission (RFC 4588): rtprtxsend and rtprtxreceive\<close>

text \<open>
  A shallow embedding of \<^verbatim>\<open>gst/rtpmanager/gstrtprtxsend.c\<close> and
  \<^verbatim>\<open>gst/rtpmanager/gstrtprtxreceive.c\<close>. Each element is a record of its fields;
  each handler is a function from the element and its input to the new element and what
  the handler pushes or returns. The mutex is not modelled: every handler runs alone.
\<close>

subsection \<open>GLib scalar types\<close>

type_synonym guint8 = "8 word"
type_synonym guint16 = "16 word"
type_synonym guint32 = "32 word"
type_synonym guint64 = "64 word"
type_synonym guint = "32 word"
type_synonym gint = "32 word" \<comment> \<open>read through \<open>sint\<close>\<close>

definition G_MAXUINT16 :: int where
  "G_MAXUINT16 = 65535"

definition G_MAXUINT32 :: guint64 where
  "G_MAXUINT32 = 0xFFFFFFFF"

definition G_MAXUINT64 :: guint64 where
  "G_MAXUINT64 = 0xFFFFFFFFFFFFFFFF"

subsection \<open>The RTP buffer\<close>

text \<open>
  A buffer is modelled by the four regions that \<^verbatim>\<open>gst_rtp_buffer_map\<close> exposes as
  \<^verbatim>\<open>data[0..3]\<close> with \<^verbatim>\<open>size[0..3]\<close>: the fixed header with its CSRC list, the
  extension, the payload and the padding. The accessors are those of
  \<^verbatim>\<open>gstrtpbuffer.c\<close> (RFC 3550 layout): sequence number in bytes 2..3, timestamp in
  bytes 4..7, SSRC in bytes 8..11, all big-endian; payload type in the low seven bits of
  byte 1; the padding flag is bit 5 of byte 0.

  A buffer is a sequence of \<^verbatim>\<open>GstMemory\<close> blocks, and the elements copy the
  extension through its block, \<^verbatim>\<open>rtp->map[1].memory\<close>, not through
  \<^verbatim>\<open>data[1]\<close>. \<open>ext_mem\<close> is that block: the bytes, from its offset 0, of the
  memory in which the extension starts. It is the extension itself when the extension has
  a memory of its own, and the whole packet when the packet is one memory. The header is
  at offset 0 of the first memory, \<^verbatim>\<open>rtp->map[0].memory\<close>. A buffer without
  extension has \<open>ext = []\<close> and \<open>ext_mem = []\<close>.
\<close>

record GstRTPBuffer =
  hdr :: "guint8 list"
  ext :: "guint8 list"
  ext_mem :: "guint8 list"
  pay :: "guint8 list"
  pad :: "guint8 list"

text \<open>The extension starts at offset \<open>skip\<close> of its memory.\<close>

definition ext_at :: "nat \<Rightarrow> GstRTPBuffer \<Rightarrow> bool" where
  "ext_at skip rtp = (ext rtp = take (length (ext rtp)) (drop skip (ext_mem rtp)))"

definition GST_READ_UINT16_BE :: "guint8 list \<Rightarrow> nat \<Rightarrow> guint16" where
  "GST_READ_UINT16_BE d off = push_bit 8 (ucast (d ! off)) OR ucast (d ! (off + 1))"

definition GST_WRITE_UINT16_BE :: "guint8 list \<Rightarrow> nat \<Rightarrow> guint16 \<Rightarrow> guint8 list" where
  "GST_WRITE_UINT16_BE d off v = d[off := ucast (drop_bit 8 v), off + 1 := ucast v]"

definition GST_READ_UINT32_BE :: "guint8 list \<Rightarrow> nat \<Rightarrow> guint32" where
  "GST_READ_UINT32_BE d off =
     push_bit 24 (ucast (d ! off)) OR push_bit 16 (ucast (d ! (off + 1))) OR
     push_bit 8 (ucast (d ! (off + 2))) OR ucast (d ! (off + 3))"

definition GST_WRITE_UINT32_BE :: "guint8 list \<Rightarrow> nat \<Rightarrow> guint32 \<Rightarrow> guint8 list" where
  "GST_WRITE_UINT32_BE d off v =
     d[off := ucast (drop_bit 24 v), off + 1 := ucast (drop_bit 16 v),
       off + 2 := ucast (drop_bit 8 v), off + 3 := ucast v]"

definition gst_rtp_buffer_get_seq :: "GstRTPBuffer \<Rightarrow> guint16" where
  "gst_rtp_buffer_get_seq rtp = GST_READ_UINT16_BE (hdr rtp) 2"

definition gst_rtp_buffer_get_timestamp :: "GstRTPBuffer \<Rightarrow> guint32" where
  "gst_rtp_buffer_get_timestamp rtp = GST_READ_UINT32_BE (hdr rtp) 4"

definition gst_rtp_buffer_get_ssrc :: "GstRTPBuffer \<Rightarrow> guint32" where
  "gst_rtp_buffer_get_ssrc rtp = GST_READ_UINT32_BE (hdr rtp) 8"

definition gst_rtp_buffer_get_payload_type :: "GstRTPBuffer \<Rightarrow> guint8" where
  "gst_rtp_buffer_get_payload_type rtp = (hdr rtp ! 1) AND 0x7F"

definition gst_rtp_buffer_set_seq :: "GstRTPBuffer \<Rightarrow> guint16 \<Rightarrow> GstRTPBuffer" where
  "gst_rtp_buffer_set_seq rtp v = rtp\<lparr>hdr := GST_WRITE_UINT16_BE (hdr rtp) 2 v\<rparr>"

definition gst_rtp_buffer_set_ssrc :: "GstRTPBuffer \<Rightarrow> guint32 \<Rightarrow> GstRTPBuffer" where
  "gst_rtp_buffer_set_ssrc rtp v = rtp\<lparr>hdr := GST_WRITE_UINT32_BE (hdr rtp) 8 v\<rparr>"

text \<open>\<^verbatim>\<open>g_return_if_fail (payload_type < 0x80)\<close>: a larger value leaves the header as it is.\<close>

definition gst_rtp_buffer_set_payload_type :: "GstRTPBuffer \<Rightarrow> guint8 \<Rightarrow> GstRTPBuffer" where
  "gst_rtp_buffer_set_payload_type rtp v =
     (if v < 0x80 then rtp\<lparr>hdr := (hdr rtp)[1 := ((hdr rtp ! 1) AND 0x80) OR v]\<rparr> else rtp)"

definition gst_rtp_buffer_set_padding :: "GstRTPBuffer \<Rightarrow> bool \<Rightarrow> GstRTPBuffer" where
  "gst_rtp_buffer_set_padding rtp p =
     rtp\<lparr>hdr := (hdr rtp)[0 := ((hdr rtp ! 0) AND 0xDF) OR (if p then 0x20 else 0)]\<rparr>"

text \<open>
  \<^verbatim>\<open>gst_rtp_buffer_compare_seqnum\<close> of \<^verbatim>\<open>gstrtpbuffer.c\<close>:
  \<^verbatim>\<open>return (gint16) (seqnum2 - seqnum1);\<close>
\<close>

definition gst_rtp_buffer_compare_seqnum :: "guint16 \<Rightarrow> guint16 \<Rightarrow> int" where
  "gst_rtp_buffer_compare_seqnum seqnum1 seqnum2 = sint (seqnum2 - seqnum1)"

subsection \<open>Library functions the elements call\<close>

text \<open>
  \<^verbatim>\<open>gst_allocator_alloc (NULL, n, NULL)\<close> returns \<open>n\<close> bytes that nobody has written.
  What they hold is an input of the model: \<open>uninit i\<close> is the byte found at offset \<open>i\<close>.
\<close>

definition gst_allocator_alloc :: "(nat \<Rightarrow> guint8) \<Rightarrow> nat \<Rightarrow> guint8 list" where
  "gst_allocator_alloc uninit n = map uninit [0..<n]"

text \<open>
  \<^verbatim>\<open>gst_memory_copy (mem, offset, n)\<close>: a new memory holding \<open>n\<close> bytes of
  \<open>mem\<close> from \<open>offset\<close> on.
\<close>

definition gst_memory_copy :: "guint8 list \<Rightarrow> nat \<Rightarrow> nat \<Rightarrow> guint8 list" where
  "gst_memory_copy mem offset n = take n (drop offset mem)"

text \<open>\<^verbatim>\<open>memcpy (dst, src, n)\<close> where both regions hold at least \<open>n\<close> bytes.\<close>

definition memcpy :: "guint8 list \<Rightarrow> guint8 list \<Rightarrow> nat \<Rightarrow> guint8 list" where
  "memcpy dst src n = take n src @ drop n dst"

text \<open>
  \<^verbatim>\<open>gst_util_uint64_scale_int (val, num, denom)\<close> of GStreamer core
  (\<^verbatim>\<open>gstutils.c\<close>): \<open>val * num / denom\<close>, truncated, \<^verbatim>\<open>G_MAXUINT64\<close> on overflow.
  It starts with \<^verbatim>\<open>g_return_val_if_fail (denom > 0, G_MAXUINT64)\<close> and
  \<^verbatim>\<open>g_return_val_if_fail (num >= 0, G_MAXUINT64)\<close>.
\<close>

definition gst_util_uint64_scale_int :: "guint64 \<Rightarrow> gint \<Rightarrow> gint \<Rightarrow> guint64" where
  "gst_util_uint64_scale_int val num denom =
     (if sint denom \<le> 0 then G_MAXUINT64
      else if sint num < 0 then G_MAXUINT64
      else (let r = (unat val * nat (sint num)) div nat (sint denom)
            in if unat G_MAXUINT64 < r then G_MAXUINT64 else of_nat r))"

datatype fault = OutOfBoundsRead

text \<open>
  An upstream event as the source pads see it. A field that
  \<^verbatim>\<open>gst_structure_get_uint\<close> does not find is \<open>None\<close>; the handlers then use
  \<^verbatim>\<open>-1\<close>.
\<close>

datatype GstEvent =
    GstRTPRetransmissionRequest "guint option" "guint option"
  | GstRTPCollision "guint option"
  | OtherEvent

text \<open>
  What a handler does with the event: \<open>Consumed\<close> is \<^verbatim>\<open>gst_event_unref\<close> and
  \<^verbatim>\<open>return TRUE\<close>; \<open>Forwarded\<close> is \<^verbatim>\<open>return gst_pad_event_default (...)\<close>.
\<close>

datatype event_result = Consumed | Forwarded

subsection \<open>The receiver: gstrtprtxreceive.c\<close>

text \<open>
  The hash tables are keyed by \<^verbatim>\<open>GUINT_TO_POINTER\<close> of a \<^verbatim>\<open>guint\<close>, so the keys
  are 32-bit values. \<open>pending_rtx_pt_map_rx\<close> holds the fields of the configured
  structure in order, each as (\<^verbatim>\<open>atoi\<close> of the field name, the field's value).
\<close>

record GstRtpRtxReceive =
  ssrc2_ssrc1_map :: "guint \<rightharpoonup> guint"
  seqnum_ssrc1_map :: "guint \<rightharpoonup> guint"
  rtx_pt_map_rx :: "guint \<rightharpoonup> guint"
  pending_rtx_pt_map_rx :: "(guint \<times> guint) list"
  rtx_pt_map_changed_rx :: bool
  num_rtx_requests_rx :: guint
  num_rtx_packets_rx :: guint
  num_rtx_assoc_packets :: guint

definition gst_rtp_rtx_receive_reset :: "GstRtpRtxReceive \<Rightarrow> GstRtpRtxReceive" where
  "gst_rtp_rtx_receive_reset rtx =
     rtx\<lparr>ssrc2_ssrc1_map := Map.empty, seqnum_ssrc1_map := Map.empty,
         num_rtx_requests_rx := 0, num_rtx_packets_rx := 0, num_rtx_assoc_packets := 0\<rparr>"

definition gst_rtp_rtx_receive_init :: GstRtpRtxReceive where
  "gst_rtp_rtx_receive_init =
     \<lparr>ssrc2_ssrc1_map = Map.empty, seqnum_ssrc1_map = Map.empty, rtx_pt_map_rx = Map.empty,
      pending_rtx_pt_map_rx = [], rtx_pt_map_changed_rx = False,
      num_rtx_requests_rx = 0, num_rtx_packets_rx = 0, num_rtx_assoc_packets = 0\<rparr>"

definition gst_rtp_rtx_receive_set_payload_type_map ::
    "GstRtpRtxReceive \<Rightarrow> (guint \<times> guint) list \<Rightarrow> GstRtpRtxReceive" where
  "gst_rtp_rtx_receive_set_payload_type_map rtx m =
     rtx\<lparr>pending_rtx_pt_map_rx := m, rtx_pt_map_changed_rx := True\<rparr>"

text \<open>\<^verbatim>\<open>structure_to_hash_table_inv\<close>: the table is keyed by the value.\<close>

definition structure_to_hash_table_inv ::
    "(guint \<rightharpoonup> guint) \<Rightarrow> guint \<times> guint \<Rightarrow> (guint \<rightharpoonup> guint)" where
  "structure_to_hash_table_inv hash fv = hash(snd fv \<mapsto> fst fv)"


text \<open>
  \<^verbatim>\<open>_gst_rtp_buffer_new_from_rtx\<close>. \<^verbatim>\<open>payload_len\<close> is a \<^verbatim>\<open>guint\<close>, so
  \<^verbatim>\<open>rtp->size[2] - 2\<close> wraps. The \<^verbatim>\<open>memcpy\<close> reads \<^verbatim>\<open>payload_len\<close> bytes from
  offset 2 of the payload; reading beyond the payload is the fault. The padding memory is
  allocated and only its last byte is written. The header is copied from offset 0 of the
  first memory, where it is; the extension is copied from offset 0 of the memory that holds
  it. The result gives the memories appended to the new buffer, each extension memory being
  a memory of its own.
\<close>

definition payload_len_from_rtx :: "GstRTPBuffer \<Rightarrow> guint" where
  "payload_len_from_rtx rtp = of_nat (length (pay rtp)) - 2"

definition gst_rtp_buffer_new_from_rtx ::
    "(nat \<Rightarrow> guint8) \<Rightarrow> GstRTPBuffer \<Rightarrow> guint32 \<Rightarrow> guint16 \<Rightarrow> guint8 \<Rightarrow> fault + GstRTPBuffer" where
  "gst_rtp_buffer_new_from_rtx uninit rtp ssrc1 orign_seqnum origin_payload_type =
     (let payload_len = payload_len_from_rtx rtp;
          mem2 = gst_allocator_alloc uninit (unat payload_len)
      in if length (pay rtp) \<noteq> 0 \<and> length (pay rtp) < 2 + unat payload_len
         then Inl OutOfBoundsRead
         else
           (let pay2 = (if length (pay rtp) \<noteq> 0
                        then memcpy mem2 (drop 2 (pay rtp)) (unat payload_len) else mem2);
                pad_len = length (pad rtp);
                pad2 = (if pad_len \<noteq> 0
                        then (gst_allocator_alloc uninit pad_len)[pad_len - 1 := of_nat pad_len]
                        else []);
                ext2 = (if length (ext rtp) \<noteq> 0
                        then gst_memory_copy (ext_mem rtp) 0 (length (ext rtp)) else []);
                new_buffer = \<lparr>hdr = hdr rtp, ext = ext2, ext_mem = ext2, pay = pay2, pad = pad2\<rparr>
            in Inr (gst_rtp_buffer_set_payload_type
                      (gst_rtp_buffer_set_seq (gst_rtp_buffer_set_ssrc new_buffer ssrc1)
                         orign_seqnum)
                      origin_payload_type)))"

text \<open>
  \<^verbatim>\<open>GST_READ_UINT16_BE (gst_rtp_buffer_get_payload (&rtp))\<close>: two bytes are read from
  the start of the payload whatever its size.
\<close>

definition read_osn :: "GstRTPBuffer \<Rightarrow> fault + guint16" where
  "read_osn rtp =
     (if length (pay rtp) < 2 then Inl OutOfBoundsRead
      else Inr (GST_READ_UINT16_BE (pay rtp) 0))"

datatype flow = Pushed GstRTPBuffer | Dropped

definition refresh_rtx_pt_map_rx :: "GstRtpRtxReceive \<Rightarrow> GstRtpRtxReceive" where
  "refresh_rtx_pt_map_rx rtx =
     (if rtx_pt_map_changed_rx rtx
      then rtx\<lparr>rtx_pt_map_rx := foldl structure_to_hash_table_inv Map.empty (pending_rtx_pt_map_rx rtx),
               rtx_pt_map_changed_rx := False\<rparr>
      else rtx)"

text \<open>
  The association step of \<^verbatim>\<open>gst_rtp_rtx_receive_chain\<close> for a packet of a
  retransmission payload type: the new element and the master SSRC, or \<open>None\<close> for
  \<^verbatim>\<open>drop = TRUE\<close>.
\<close>

definition associate :: "GstRtpRtxReceive \<Rightarrow> guint32 \<Rightarrow> guint16 \<Rightarrow> GstRtpRtxReceive \<times> guint option" where
  "associate rtx ssrc orign_seqnum =
     (let rtx1 = rtx\<lparr>num_rtx_packets_rx := num_rtx_packets_rx rtx + 1\<rparr>
      in case ssrc2_ssrc1_map rtx1 ssrc of
           Some ssrc1 \<Rightarrow> (rtx1, Some ssrc1)
         | None \<Rightarrow>
             (case seqnum_ssrc1_map rtx1 (ucast orign_seqnum) of
                Some ssrc1 \<Rightarrow>
                  (rtx1\<lparr>seqnum_ssrc1_map := (seqnum_ssrc1_map rtx1)(ucast orign_seqnum := None),
                        ssrc2_ssrc1_map := (ssrc2_ssrc1_map rtx1)(ssrc \<mapsto> ssrc1, ssrc1 \<mapsto> ssrc)\<rparr>,
                   Some ssrc1)
              | None \<Rightarrow> (rtx1, None)))"

definition gst_rtp_rtx_receive_chain ::
    "(nat \<Rightarrow> guint8) \<Rightarrow> GstRtpRtxReceive \<Rightarrow> GstRTPBuffer \<Rightarrow> fault + (GstRtpRtxReceive \<times> flow)" where
  "gst_rtp_rtx_receive_chain uninit rtx buffer =
     (let ssrc = gst_rtp_buffer_get_ssrc buffer;
          payload_type = gst_rtp_buffer_get_payload_type buffer;
          rtx1 = refresh_rtx_pt_map_rx rtx
      in case rtx_pt_map_rx rtx1 (ucast payload_type) of
           None \<Rightarrow> Inr (rtx1, Pushed buffer)
         | Some opt \<Rightarrow>
             (case read_osn buffer of
                Inl f \<Rightarrow> Inl f
              | Inr orign_seqnum \<Rightarrow>
                  (case associate rtx1 ssrc orign_seqnum of
                     (rtx2, None) \<Rightarrow> Inr (rtx2, Dropped)
                   | (rtx2, Some ssrc1) \<Rightarrow>
                       (case gst_rtp_buffer_new_from_rtx uninit buffer ssrc1 orign_seqnum (ucast opt) of
                          Inl f \<Rightarrow> Inl f
                        | Inr new_buffer \<Rightarrow>
                            Inr (rtx2\<lparr>num_rtx_assoc_packets := num_rtx_assoc_packets rtx2 + 1\<rparr>,
                                 Pushed new_buffer)))))"

subsection \<open>The sender: gstrtprtxsend.c\<close>

record BufferQueueItem =
  seqnum :: guint16
  timestamp :: guint32
  buffer :: GstRTPBuffer

text \<open>The history \<^verbatim>\<open>GSequence *queue\<close> is the list of its items from begin to end.\<close>

record SSRCRtxData =
  rtx_ssrc :: guint32
  next_seqnum :: guint16
  clock_rate :: gint
  queue :: "BufferQueueItem list"

text \<open>
  \<open>external_ssrc_map\<close> is \<open>None\<close> for \<^verbatim>\<open>NULL\<close>; otherwise it gives, for a master
  SSRC, the value \<^verbatim>\<open>gst_structure_get_uint\<close> finds under that SSRC's decimal name.
  \<open>g_random\<close> is GLib's global generator: the values the coming calls of
  \<^verbatim>\<open>g_random_int\<close> return, in order.
\<close>

record GstRtpRtxSend =
  ssrc_data :: "guint \<rightharpoonup> SSRCRtxData"
  rtx_ssrcs :: "guint \<rightharpoonup> guint"
  external_ssrc_map :: "(guint \<rightharpoonup> guint) option"
  rtx_pt_map :: "guint \<rightharpoonup> guint"
  pending_rtx_pt_map :: "(guint \<times> guint) list"
  rtx_pt_map_changed :: bool
  pending :: "GstRTPBuffer list"
  max_size_time :: guint
  max_size_packets :: guint
  num_rtx_requests :: guint
  num_rtx_packets :: guint
  g_random :: "nat \<Rightarrow> guint32"

definition DEFAULT_MAX_SIZE_TIME :: guint where
  "DEFAULT_MAX_SIZE_TIME = 0"

definition DEFAULT_MAX_SIZE_PACKETS :: guint where
  "DEFAULT_MAX_SIZE_PACKETS = 100"

definition gst_rtp_rtx_send_init :: "(nat \<Rightarrow> guint32) \<Rightarrow> GstRtpRtxSend" where
  "gst_rtp_rtx_send_init rnd =
     \<lparr>ssrc_data = Map.empty, rtx_ssrcs = Map.empty, external_ssrc_map = None,
      rtx_pt_map = Map.empty, pending_rtx_pt_map = [], rtx_pt_map_changed = False,
      pending = [], max_size_time = DEFAULT_MAX_SIZE_TIME,
      max_size_packets = DEFAULT_MAX_SIZE_PACKETS,
      num_rtx_requests = 0, num_rtx_packets = 0, g_random = rnd\<rparr>"

definition gst_rtp_rtx_send_reset :: "GstRtpRtxSend \<Rightarrow> GstRtpRtxSend" where
  "gst_rtp_rtx_send_reset rtx =
     rtx\<lparr>pending := [], ssrc_data := Map.empty, rtx_ssrcs := Map.empty,
         num_rtx_requests := 0, num_rtx_packets := 0\<rparr>"

text \<open>\<^verbatim>\<open>g_random_int ()\<close>: the next value of the generator.\<close>

definition g_random_int :: "GstRtpRtxSend \<Rightarrow> guint32 \<times> GstRtpRtxSend" where
  "g_random_int rtx = (g_random rtx 0, rtx\<lparr>g_random := (\<lambda>i. g_random rtx (Suc i))\<rparr>)"

text \<open>
  \<^verbatim>\<open>g_random_int_range (begin, end)\<close> of GLib returns a value of
  \<^verbatim>\<open>[begin..end-1]\<close>. The model takes it from the next value of the generator; how GLib
  spreads the values over the range is not modelled.
\<close>

definition g_random_int_range :: "GstRtpRtxSend \<Rightarrow> int \<Rightarrow> int \<Rightarrow> int \<times> GstRtpRtxSend" where
  "g_random_int_range rtx begin end =
     (begin + uint (g_random rtx 0) mod (end - begin),
      rtx\<lparr>g_random := (\<lambda>i. g_random rtx (Suc i))\<rparr>)"

definition ssrc_rtx_data_new :: "GstRtpRtxSend \<Rightarrow> guint32 \<Rightarrow> SSRCRtxData \<times> GstRtpRtxSend" where
  "ssrc_rtx_data_new rtx r =
     (let (v, rtx1) = g_random_int_range rtx 0 G_MAXUINT16
      in (\<lparr>rtx_ssrc = r, next_seqnum = of_int v, clock_rate = 0, queue = []\<rparr>, rtx1))"

text \<open>
  The loop of \<^verbatim>\<open>gst_rtp_rtx_send_choose_ssrc\<close>. It runs for as long as the generator
  returns values that are in use, so it is a partial function: \<open>None\<close> is the loop that
  never ends.
\<close>

partial_function (option) choose_ssrc_loop ::
    "GstRtpRtxSend \<Rightarrow> guint32 \<Rightarrow> (guint32 \<times> GstRtpRtxSend) option" where
  "choose_ssrc_loop rtx ssrc =
     (if ssrc_data rtx ssrc \<noteq> None \<or> rtx_ssrcs rtx ssrc \<noteq> None
      then choose_ssrc_loop (snd (g_random_int rtx)) (fst (g_random_int rtx))
      else Some (ssrc, rtx))"

definition gst_rtp_rtx_send_choose_ssrc ::
    "GstRtpRtxSend \<Rightarrow> guint32 \<Rightarrow> bool \<Rightarrow> (guint32 \<times> GstRtpRtxSend) option" where
  "gst_rtp_rtx_send_choose_ssrc rtx choice consider_choice =
     (if consider_choice then choose_ssrc_loop rtx choice
      else choose_ssrc_loop (snd (g_random_int rtx)) (fst (g_random_int rtx)))"

text \<open>
  \<^verbatim>\<open>gst_rtp_rtx_send_get_ssrc_data\<close> returns a pointer into the table; the model
  returns the entry together with the element, which holds a new entry when there was
  none.
\<close>

definition gst_rtp_rtx_send_get_ssrc_data ::
    "GstRtpRtxSend \<Rightarrow> guint32 \<Rightarrow> (SSRCRtxData \<times> GstRtpRtxSend) option" where
  "gst_rtp_rtx_send_get_ssrc_data rtx ssrc =
     (case ssrc_data rtx ssrc of
        Some data \<Rightarrow> Some (data, rtx)
      | None \<Rightarrow>
          (let found = (case external_ssrc_map rtx of None \<Rightarrow> None | Some m \<Rightarrow> m ssrc)
           in case gst_rtp_rtx_send_choose_ssrc rtx
                     (case found of Some v \<Rightarrow> v | None \<Rightarrow> 0) (found \<noteq> None) of
                None \<Rightarrow> None
              | Some (r, rtx1) \<Rightarrow>
                  (let (data, rtx2) = ssrc_rtx_data_new rtx1 r
                   in Some (data, rtx2\<lparr>ssrc_data := (ssrc_data rtx2)(ssrc \<mapsto> data),
                                        rtx_ssrcs := (rtx_ssrcs rtx2)(r \<mapsto> ssrc)\<rparr>))))"

definition buffer_queue_items_cmp :: "BufferQueueItem \<Rightarrow> BufferQueueItem \<Rightarrow> int" where
  "buffer_queue_items_cmp a b = gst_rtp_buffer_compare_seqnum (seqnum b) (seqnum a)"

text \<open>
  \<^verbatim>\<open>g_sequence_lookup\<close> of GLib searches the balanced binary tree that holds the
  sequence: \<^verbatim>\<open>node_find\<close> starts at the root and goes left when the comparison of the
  node with the needle is positive, right when it is negative. The tree's layout is
  GLib's own; all that is known of it is that its in-order traversal is the sequence. The
  layout is therefore an input of the model.
\<close>

fun node_find :: "BufferQueueItem tree \<Rightarrow> BufferQueueItem \<Rightarrow> BufferQueueItem option" where
  "node_find Leaf needle = None"
| "node_find (Node l h r) needle =
     (let c = buffer_queue_items_cmp h needle
      in if c = 0 then Some h else if 0 < c then node_find l needle else node_find r needle)"

definition g_sequence_lookup ::
    "(BufferQueueItem list \<Rightarrow> BufferQueueItem tree) \<Rightarrow> BufferQueueItem list \<Rightarrow> BufferQueueItem
       \<Rightarrow> BufferQueueItem option" where
  "g_sequence_lookup layout q needle = node_find (layout q) needle"

text \<open>A layout GLib may have: every node the right child of the one before it.\<close>

fun right_spine :: "BufferQueueItem list \<Rightarrow> BufferQueueItem tree" where
  "right_spine [] = Leaf"
| "right_spine (x # xs) = Node Leaf x (right_spine xs)"

text \<open>
  \<^verbatim>\<open>search_item\<close> is a local of which only \<^verbatim>\<open>seqnum\<close> is set, from the request's
  \<^verbatim>\<open>guint\<close>; the comparison reads nothing else.
\<close>

definition search_item :: "guint \<Rightarrow> BufferQueueItem" where
  "search_item sq =
     \<lparr>seqnum = ucast sq, timestamp = 0, buffer = \<lparr>hdr = [], ext = [], ext_mem = [], pay = [], pad = []\<rparr>\<rparr>"

definition gst_rtp_rtx_send_src_event ::
    "(BufferQueueItem list \<Rightarrow> BufferQueueItem tree) \<Rightarrow> GstRtpRtxSend \<Rightarrow> GstEvent
       \<Rightarrow> (GstRtpRtxSend \<times> event_result) option" where
  "gst_rtp_rtx_send_src_event layout rtx event =
     (case event of
        GstRTPRetransmissionRequest sq ss \<Rightarrow>
          (let sqn = (case sq of Some v \<Rightarrow> v | None \<Rightarrow> - 1);
               ssrc = (case ss of Some v \<Rightarrow> v | None \<Rightarrow> - 1)
           in if ssrc_data rtx ssrc \<noteq> None
              then
                (case gst_rtp_rtx_send_get_ssrc_data
                        (rtx\<lparr>num_rtx_requests := num_rtx_requests rtx + 1\<rparr>) ssrc of
                   None \<Rightarrow> None
                 | Some (data, rtx1) \<Rightarrow>
                     (case g_sequence_lookup layout (queue data) (search_item sqn) of
                        Some item \<Rightarrow> Some (rtx1\<lparr>pending := pending rtx1 @ [buffer item]\<rparr>, Consumed)
                      | None \<Rightarrow> Some (rtx1, Consumed)))
              else Some (rtx, Consumed))
      | GstRTPCollision ss \<Rightarrow>
          (let ssrc = (case ss of Some v \<Rightarrow> v | None \<Rightarrow> - 1)
           in case rtx_ssrcs rtx ssrc of
                Some master_ssrc \<Rightarrow>
                  (case gst_rtp_rtx_send_get_ssrc_data rtx master_ssrc of
                     None \<Rightarrow> None
                   | Some (data, rtx1) \<Rightarrow>
                       (case gst_rtp_rtx_send_choose_ssrc rtx1 0 False of
                          None \<Rightarrow> None
                        | Some (r, rtx2) \<Rightarrow>
                            Some (rtx2\<lparr>ssrc_data := (ssrc_data rtx2)(master_ssrc \<mapsto> data\<lparr>rtx_ssrc := r\<rparr>),
                                       rtx_ssrcs := ((rtx_ssrcs rtx2)(ssrc := None))(r \<mapsto> master_ssrc)\<rparr>,
                                  Consumed)))
              | None \<Rightarrow>
                  (case ssrc_data rtx ssrc of
                     Some data \<Rightarrow>
                       Some (rtx\<lparr>rtx_ssrcs := (rtx_ssrcs rtx)(rtx_ssrc data := None),
                                 ssrc_data := (ssrc_data rtx)(ssrc := None)\<rparr>, Forwarded)
                   | None \<Rightarrow> Some (rtx, Forwarded)))
      | OtherEvent \<Rightarrow> Some (rtx, Forwarded))"

text \<open>
  The caps event of \<^verbatim>\<open>gst_rtp_rtx_send_sink_event\<close>: the SSRC of the caps and its
  \<^verbatim>\<open>clock-rate\<close> when the caps have one. The event is always passed on.
\<close>

definition gst_rtp_rtx_send_sink_event ::
    "GstRtpRtxSend \<Rightarrow> guint \<Rightarrow> gint option \<Rightarrow> GstRtpRtxSend option" where
  "gst_rtp_rtx_send_sink_event rtx ssrc rate =
     (case gst_rtp_rtx_send_get_ssrc_data rtx ssrc of
        None \<Rightarrow> None
      | Some (data, rtx1) \<Rightarrow>
          (case rate of
             None \<Rightarrow> Some rtx1
           | Some cr \<Rightarrow> Some (rtx1\<lparr>ssrc_data := (ssrc_data rtx1)(ssrc \<mapsto> data\<lparr>clock_rate := cr\<rparr>)\<rparr>)))"

definition structure_to_hash_table ::
    "(guint \<rightharpoonup> guint) \<Rightarrow> guint \<times> guint \<Rightarrow> (guint \<rightharpoonup> guint)" where
  "structure_to_hash_table hash fv = hash(fst fv \<mapsto> snd fv)"

definition gst_rtp_rtx_send_get_ts_diff :: "SSRCRtxData \<Rightarrow> guint32" where
  "gst_rtp_rtx_send_get_ts_diff data =
     (case queue data of
        [] \<Rightarrow> 0
      | [only] \<Rightarrow> 0
      | low_buf # rest \<Rightarrow>
          (let high_buf = last (queue data);
               high_ts = (ucast (timestamp high_buf) :: guint64);
               low_ts = (ucast (timestamp low_buf) :: guint64);
               result = (if low_ts \<le> high_ts then (ucast (high_ts - low_ts) :: guint32)
                         else ucast (high_ts + G_MAXUINT32 + 1 - low_ts))
           in ucast (gst_util_uint64_scale_int (ucast result) 1000 (clock_rate data))))"

text \<open>The two eviction loops of \<^verbatim>\<open>gst_rtp_rtx_send_chain\<close>.\<close>

function evict_packets :: "guint \<Rightarrow> BufferQueueItem list \<Rightarrow> BufferQueueItem list" where
  "evict_packets m q = (if unat m < length q then evict_packets m (tl q) else q)"
  by pat_completeness auto
termination
  by (relation "measure (\<lambda>(m, q). length q)") auto

function evict_time :: "guint \<Rightarrow> SSRCRtxData \<Rightarrow> SSRCRtxData" where
  "evict_time m data =
     (if m < gst_rtp_rtx_send_get_ts_diff data
      then evict_time m (data\<lparr>queue := tl (queue data)\<rparr>) else data)"
  by pat_completeness auto
termination
proof (relation "measure (\<lambda>(m, data). length (queue data))")
  show "wf (measure (\<lambda>(m, data). length (queue data)))"
    by simp
next
  fix m :: guint and data :: SSRCRtxData
  assume "m < gst_rtp_rtx_send_get_ts_diff data"
  then have "gst_rtp_rtx_send_get_ts_diff data \<noteq> 0"
    by (metis word_not_simps(1))
  then have "queue data \<noteq> []"
    by (auto simp add: gst_rtp_rtx_send_get_ts_diff_def)
  then show "((m, data\<lparr>queue := tl (queue data)\<rparr>), (m, data)) \<in> measure (\<lambda>(m, data). length (queue data))"
    by simp
qed

definition refresh_rtx_pt_map :: "GstRtpRtxSend \<Rightarrow> GstRtpRtxSend" where
  "refresh_rtx_pt_map rtx =
     (if rtx_pt_map_changed rtx
      then rtx\<lparr>rtx_pt_map := foldl structure_to_hash_table Map.empty (pending_rtx_pt_map rtx),
               rtx_pt_map_changed := False\<rparr>
      else rtx)"

text \<open>
  The item that \<^verbatim>\<open>gst_rtp_rtx_send_chain\<close> makes of a buffer: its sequence number,
  its timestamp and a reference to it.
\<close>

definition history_item :: "GstRTPBuffer \<Rightarrow> BufferQueueItem" where
  "history_item buf =
     \<lparr>seqnum = gst_rtp_buffer_get_seq buf, timestamp = gst_rtp_buffer_get_timestamp buf,
      buffer = buf\<rparr>"

text \<open>
  The part of \<^verbatim>\<open>gst_rtp_rtx_send_chain\<close> that stores the buffer in the history of
  its SSRC and evicts from the front.
\<close>

definition store_in_history :: "GstRtpRtxSend \<Rightarrow> GstRTPBuffer \<Rightarrow> GstRtpRtxSend option" where
  "store_in_history rtx buf =
     (let ssrc = gst_rtp_buffer_get_ssrc buf
      in case gst_rtp_rtx_send_get_ssrc_data rtx ssrc of
           None \<Rightarrow> None
         | Some (data, rtx1) \<Rightarrow>
             (let data1 = data\<lparr>queue := queue data @ [history_item buf]\<rparr>;
                  data2 = (if max_size_packets rtx1 \<noteq> 0
                           then data1\<lparr>queue := evict_packets (max_size_packets rtx1) (queue data1)\<rparr>
                           else data1);
                  data3 = (if max_size_time rtx1 \<noteq> 0
                           then evict_time (max_size_time rtx1) data2 else data2)
              in Some (rtx1\<lparr>ssrc_data := (ssrc_data rtx1)(ssrc \<mapsto> data3)\<rparr>)))"

text \<open>
  \<^verbatim>\<open>_gst_rtp_rtx_buffer_new\<close>: the retransmission packet for a stored buffer. Every
  byte of the new payload memory is written: the original sequence number, then the
  original payload. The extension is copied from offset 0 of the memory that holds it.
\<close>

definition gst_rtp_rtx_buffer_new ::
    "GstRtpRtxSend \<Rightarrow> GstRTPBuffer \<Rightarrow> (GstRtpRtxSend \<times> GstRTPBuffer) option" where
  "gst_rtp_rtx_buffer_new rtx buf =
     (let ssrc = gst_rtp_buffer_get_ssrc buf
      in case gst_rtp_rtx_send_get_ssrc_data rtx ssrc of
           None \<Rightarrow> None
         | Some (data, rtx1) \<Rightarrow>
             (let sq = next_seqnum data;
                  rtx2 = rtx1\<lparr>ssrc_data := (ssrc_data rtx1)(ssrc \<mapsto> data\<lparr>next_seqnum := next_seqnum data + 1\<rparr>)\<rparr>;
                  fmtp0 = (ucast (case rtx_pt_map rtx2 (ucast (gst_rtp_buffer_get_payload_type buf)) of
                                    Some v \<Rightarrow> v | None \<Rightarrow> 0) :: guint8);
                  fmtp = (if fmtp0 < 96 then gst_rtp_buffer_get_payload_type buf + 1 else fmtp0);
                  ext2 = (if length (ext buf) \<noteq> 0
                          then gst_memory_copy (ext_mem buf) 0 (length (ext buf)) else []);
                  new_buffer = \<lparr>hdr = hdr buf, ext = ext2, ext_mem = ext2,
                                pay = GST_WRITE_UINT16_BE [0, 0] 0 (gst_rtp_buffer_get_seq buf) @ pay buf,
                                pad = []\<rparr>
              in Some (rtx2,
                       gst_rtp_buffer_set_padding
                         (gst_rtp_buffer_set_payload_type
                            (gst_rtp_buffer_set_seq (gst_rtp_buffer_set_ssrc new_buffer (rtx_ssrc data)) sq)
                            fmtp)
                         False)))"

text \<open>\<^verbatim>\<open>g_queue_foreach (pending, (GFunc) do_push, rtx)\<close>: the packets pushed, in order.\<close>

fun do_push :: "GstRtpRtxSend \<Rightarrow> GstRTPBuffer list \<Rightarrow> (GstRtpRtxSend \<times> GstRTPBuffer list) option" where
  "do_push rtx [] = Some (rtx, [])"
| "do_push rtx (b # bs) =
     (case gst_rtp_rtx_buffer_new rtx b of
        None \<Rightarrow> None
      | Some (rtx1, nb) \<Rightarrow>
          (case do_push rtx1 bs of
             None \<Rightarrow> None
           | Some (rtx2, out) \<Rightarrow> Some (rtx2, nb # out)))"

text \<open>
  \<^verbatim>\<open>gst_rtp_rtx_send_chain\<close>: the new element and the buffers pushed on the source
  pad, in order.
\<close>

definition detach_pending :: "GstRtpRtxSend \<Rightarrow> GstRtpRtxSend" where
  "detach_pending rtx =
     (if 0 < length (pending rtx)
      then rtx\<lparr>pending := [], num_rtx_packets := num_rtx_packets rtx + of_nat (length (pending rtx))\<rparr>
      else rtx)"

definition gst_rtp_rtx_send_chain ::
    "GstRtpRtxSend \<Rightarrow> GstRTPBuffer \<Rightarrow> (GstRtpRtxSend \<times> GstRTPBuffer list) option" where
  "gst_rtp_rtx_send_chain rtx buf =
     (let rtx1 = refresh_rtx_pt_map rtx
      in case (if rtx_pt_map rtx1 (ucast (gst_rtp_buffer_get_payload_type buf)) \<noteq> None
               then store_in_history rtx1 buf else Some rtx1) of
           None \<Rightarrow> None
         | Some rtx2 \<Rightarrow>
             (case do_push (detach_pending rtx2) (pending rtx2) of
                None \<Rightarrow> None
              | Some (rtx3, out) \<Rightarrow> Some (rtx3, out @ [buf])))"

subsection \<open>Example inputs\<close>

text \<open>
  A retransmission packet with three bytes of padding: payload type 97, SSRC
  \<open>0xBBBB\<close>, original sequence number 50, one byte of original payload.
\<close>

definition rtx_packet_padded :: GstRTPBuffer where
  "rtx_packet_padded =
     \<lparr>hdr = [0xA0, 97, 0, 7, 0, 0, 0, 0, 0, 0, 0xBB, 0xBB], ext = [], ext_mem = [],
      pay = [0, 50, 88], pad = [0xAA, 0xBB, 3]\<rparr>"

text \<open>The same stream, a packet whose payload is one byte long.\<close>

definition rtx_packet_short :: GstRTPBuffer where
  "rtx_packet_short =
     \<lparr>hdr = [0x80, 97, 0, 8, 0, 0, 0, 0, 0, 0, 0xBB, 0xBB], ext = [], ext_mem = [], pay = [7], pad = []\<rparr>"

text \<open>A well-formed retransmission packet without padding.\<close>

definition rtx_packet :: GstRTPBuffer where
  "rtx_packet =
     \<lparr>hdr = [0x80, 97, 0, 9, 0, 0, 0, 0, 0, 0, 0xBB, 0xBB], ext = [], ext_mem = [], pay = [0, 50, 88], pad = []\<rparr>"

text \<open>
  A retransmission packet with an extension of eight bytes, received as one memory: the
  memory that holds the extension is the whole packet, and the extension starts at its
  offset 12.
\<close>

definition rtx_packet_ext :: GstRTPBuffer where
  "rtx_packet_ext =
     \<lparr>hdr = [0x90, 97, 0, 9, 0, 0, 0, 0, 0, 0, 0xBB, 0xBB],
      ext = [0xBE, 0xDE, 0, 1, 1, 2, 3, 4],
      ext_mem = [0x90, 97, 0, 9, 0, 0, 0, 0, 0, 0, 0xBB, 0xBB,
                 0xBE, 0xDE, 0, 1, 1, 2, 3, 4, 0, 50, 88],
      pay = [0, 50, 88], pad = []\<rparr>"

text \<open>A master packet of SSRC \<open>0xAAAA\<close> with the same extension, also one memory.\<close>

definition master_packet_ext :: GstRTPBuffer where
  "master_packet_ext =
     \<lparr>hdr = [0x90, 96, 0, 11, 0, 0, 0, 160, 0, 0, 0xAA, 0xAA],
      ext = [0xBE, 0xDE, 0, 1, 1, 2, 3, 4],
      ext_mem = [0x90, 96, 0, 11, 0, 0, 0, 160, 0, 0, 0xAA, 0xAA,
                 0xBE, 0xDE, 0, 1, 1, 2, 3, 4, 1, 2, 3],
      pay = [1, 2, 3], pad = []\<rparr>"

text \<open>
  A receiver that maps retransmission payload type 97 to 96 and holds the request of
  master \<open>0xAAAA\<close> for sequence number 50.
\<close>

definition rx_requested :: GstRtpRtxReceive where
  "rx_requested =
     gst_rtp_rtx_receive_init\<lparr>rtx_pt_map_rx := [97 \<mapsto> 96], seqnum_ssrc1_map := [50 \<mapsto> 0xAAAA]\<rparr>"

text \<open>A receiver that has associated the stream \<open>0xBBBB\<close> with its master \<open>0xAAAA\<close>.\<close>

definition rx_associated :: GstRtpRtxReceive where
  "rx_associated =
     gst_rtp_rtx_receive_init\<lparr>rtx_pt_map_rx := [97 \<mapsto> 96],
       ssrc2_ssrc1_map := [0xBBBB \<mapsto> 0xAAAA, 0xAAAA \<mapsto> 0xBBBB]\<rparr>"

text \<open>A master packet of SSRC \<open>0xAAAA\<close> and payload type 96.\<close>

definition master_packet :: "guint16 \<Rightarrow> guint32 \<Rightarrow> GstRTPBuffer" where
  "master_packet sq ts =
     \<lparr>hdr = GST_WRITE_UINT32_BE
              (GST_WRITE_UINT16_BE [0x80, 96, 0, 0, 0, 0, 0, 0, 0, 0, 0xAA, 0xAA] 2 sq) 4 ts,
      ext = [], ext_mem = [], pay = [1, 2, 3], pad = []\<rparr>"

text \<open>
  A sender as \<^verbatim>\<open>gst_rtp_rtx_send_init\<close> leaves it, with payload type 96 mapped to 97
  and a generator that returns \<open>0x1234\<close>.
\<close>

definition tx_example :: GstRtpRtxSend where
  "tx_example = (gst_rtp_rtx_send_init (\<lambda>i. 0x1234))\<lparr>rtx_pt_map := [96 \<mapsto> 97]\<rparr>"

text \<open>A sequence of buffers arriving on the sink pad, one call of the chain function each.\<close>

fun chain_all :: "GstRtpRtxSend \<Rightarrow> GstRTPBuffer list \<Rightarrow> (GstRtpRtxSend \<times> GstRTPBuffer list) option" where
  "chain_all rtx [] = Some (rtx, [])"
| "chain_all rtx (b # bs) =
     (case gst_rtp_rtx_send_chain rtx b of
        None \<Rightarrow> None
      | Some (rtx1, out1) \<Rightarrow>
          (case chain_all rtx1 bs of
             None \<Rightarrow> None
           | Some (rtx2, out2) \<Rightarrow> Some (rtx2, out1 @ out2)))"

text \<open>The same event arriving \<open>n\<close> times on the source pad of the sender.\<close>

fun src_event_times ::
    "(BufferQueueItem list \<Rightarrow> BufferQueueItem tree) \<Rightarrow> GstRtpRtxSend \<Rightarrow> GstEvent \<Rightarrow> nat
       \<Rightarrow> (GstRtpRtxSend \<times> event_result list) option" where
  "src_event_times layout rtx event 0 = Some (rtx, [])"
| "src_event_times layout rtx event (Suc n) =
     (case gst_rtp_rtx_send_src_event layout rtx event of
        None \<Rightarrow> None
      | Some (rtx1, res) \<Rightarrow>
          (case src_event_times layout rtx1 event n of
             None \<Rightarrow> None
           | Some (rtx2, ress) \<Rightarrow> Some (rtx2, res # ress)))"

text \<open>The sequence numbers in the history of an SSRC, oldest first.\<close>

definition history_seqnums :: "GstRtpRtxSend \<Rightarrow> guint \<Rightarrow> guint16 list" where
  "history_seqnums rtx ssrc =
     (case ssrc_data rtx ssrc of None \<Rightarrow> [] | Some d \<Rightarrow> map seqnum (queue d))"

text \<open>
  A history in the order of RFC 1982: every item is followed only by items whose sequence
  number is the same or later, the distance being less than \<open>2\<^sup>1\<^sup>5\<close>.
\<close>

definition history_sorted :: "BufferQueueItem list \<Rightarrow> bool" where
  "history_sorted q =
     sorted_wrt (\<lambda>a b. 0 \<le> gst_rtp_buffer_compare_seqnum (seqnum a) (seqnum b)) q"

text \<open>The history of an SSRC, empty when the SSRC has no entry.\<close>

definition history :: "GstRtpRtxSend \<Rightarrow> guint \<Rightarrow> BufferQueueItem list" where
  "history rtx ssrc = (case ssrc_data rtx ssrc of None \<Rightarrow> [] | Some d \<Rightarrow> queue d)"

text \<open>
  The example sender after master packets of SSRC \<open>0xAAAA\<close>: its entry has the
  retransmission SSRC \<open>0x1234\<close>, the next sequence number \<open>0x1234\<close> and the history \<open>q\<close>.
\<close>

definition tx_streaming :: "BufferQueueItem list \<Rightarrow> GstRtpRtxSend" where
  "tx_streaming q =
     tx_example\<lparr>ssrc_data := [0xAAAA \<mapsto> \<lparr>rtx_ssrc = 0x1234, next_seqnum = 0x1234,
                                         clock_rate = 0, queue = q\<rparr>],
                rtx_ssrcs := [0x1234 \<mapsto> 0xAAAA]\<rparr>"

text \<open>Another layout GLib may have: every node the left child of the one after it.\<close>

definition left_spine :: "BufferQueueItem list \<Rightarrow> BufferQueueItem tree" where
  "left_spine q = foldl (\<lambda>t x. Node t x Leaf) Leaf q"

text \<open>The generator will return a value that is in neither table.\<close>

definition generator_yields_unused :: "GstRtpRtxSend \<Rightarrow> bool" where
  "generator_yields_unused rtx =
     (\<exists>i. ssrc_data rtx (g_random rtx i) = None \<and> rtx_ssrcs rtx (g_random rtx i) = None)"

section \<open>Properties\<close>

subsection \<open>Header fields\<close>

lemma be16:
  "push_bit 8 (ucast (ucast (drop_bit 8 v) :: guint8)) OR ucast (ucast v :: guint8) = (v :: guint16)"
  by (rule bit_word_eqI) (auto simp add: bit_simps)

lemma be32:
  "push_bit 24 (ucast (ucast (drop_bit 24 v) :: guint8)) OR
   push_bit 16 (ucast (ucast (drop_bit 16 v) :: guint8)) OR
   push_bit 8 (ucast (ucast (drop_bit 8 v) :: guint8)) OR ucast (ucast v :: guint8) = (v :: guint32)"
proof (rule bit_word_eqI)
  fix n :: nat
  assume n: "n < LENGTH(32)"
  consider "n < 8" | "8 \<le> n \<and> n < 16" | "16 \<le> n \<and> n < 24" | "24 \<le> n"
    by linarith
  then show "bit (push_bit 24 (ucast (ucast (drop_bit 24 v) :: guint8)) OR
      push_bit 16 (ucast (ucast (drop_bit 16 v) :: guint8)) OR
      push_bit 8 (ucast (ucast (drop_bit 8 v) :: guint8)) OR ucast (ucast v :: guint8) :: guint32) n
    = bit v n"
    using n by cases (auto simp add: bit_simps)
qed

lemma read_write_uint16:
  "off + 1 < length d \<Longrightarrow> GST_READ_UINT16_BE (GST_WRITE_UINT16_BE d off v) off = v"
  by (simp add: GST_READ_UINT16_BE_def GST_WRITE_UINT16_BE_def be16)

lemma read_write_uint32:
  "off + 3 < length d \<Longrightarrow> GST_READ_UINT32_BE (GST_WRITE_UINT32_BE d off v) off = v"
  by (simp add: GST_READ_UINT32_BE_def GST_WRITE_UINT32_BE_def be32)

lemma pt_bits: "v < 0x80 \<Longrightarrow> ((a AND 0x80) OR v) AND 0x7F = (v :: guint8)"
proof -
  assume v: "v < 0x80"
  have m: "(0x7F :: guint8) = mask 7" by (simp add: mask_eq_exp_minus_1)
  have "v < 2 ^ 7" using v by simp
  then have "v AND mask 7 = v" by (rule less_mask_eq)
  moreover have "(a AND 0x80) AND (0x7F :: guint8) = 0"
    by (simp add: and.assoc)
  ultimately show ?thesis
    by (simp add: m [symmetric] bit.conj_disj_distrib2)
qed

lemma unat_payload_len: "2 \<le> n \<Longrightarrow> n < 2 ^ 32 \<Longrightarrow> unat ((of_nat n :: guint) - 2) = n - 2"
proof -
  assume a: "2 \<le> n" "n < 2 ^ 32"
  then have u: "unat (of_nat n :: guint) = n"
    by (simp add: unat_of_nat)
  then have "(2 :: guint) \<le> of_nat n"
    using a by (simp add: word_le_nat_alt)
  then show ?thesis
    using u by (simp add: unat_sub)
qed

lemma new_from_rtx_ok:
  assumes "2 \<le> length (pay rtp)" and "length (pay rtp) < 2 ^ 32" 
  shows "gst_rtp_buffer_new_from_rtx u rtp s1 osn opt =
     Inr (gst_rtp_buffer_set_payload_type
            (gst_rtp_buffer_set_seq
               (gst_rtp_buffer_set_ssrc
                  \<lparr>hdr = hdr rtp,
                   ext = gst_memory_copy (ext_mem rtp) 0 (length (ext rtp)),
                   ext_mem = gst_memory_copy (ext_mem rtp) 0 (length (ext rtp)),
                   pay = drop 2 (pay rtp),
                   pad = (if pad rtp = [] then []
                          else (map u [0..<length (pad rtp)])[length (pad rtp) - 1 := of_nat (length (pad rtp))])\<rparr>
                  s1) osn) opt)"
  using assms
  by (auto simp add: gst_rtp_buffer_new_from_rtx_def payload_len_from_rtx_def unat_payload_len Let_def memcpy_def
      gst_allocator_alloc_def gst_memory_copy_def)

lemma new_from_rtx_fields:
  assumes "2 \<le> length (pay rtp)" and "length (pay rtp) < 2 ^ 32" and "12 \<le> length (hdr rtp)"
    and "opt < 0x80" and "gst_rtp_buffer_new_from_rtx u rtp s1 osn opt = Inr nb"
  shows "gst_rtp_buffer_get_ssrc nb = s1" "gst_rtp_buffer_get_seq nb = osn"
    "gst_rtp_buffer_get_payload_type nb = opt"
    "ext nb = gst_memory_copy (ext_mem rtp) 0 (length (ext rtp))" "ext_at 0 rtp \<longrightarrow> ext nb = ext rtp"
    "pay nb = drop 2 (pay rtp)" "length (pad nb) = length (pad rtp)"
  using assms(3,4,5) unfolding new_from_rtx_ok [OF assms(1,2)]
  by (auto simp add: gst_rtp_buffer_set_payload_type_def gst_rtp_buffer_set_seq_def gst_rtp_buffer_set_ssrc_def
       gst_rtp_buffer_get_ssrc_def gst_rtp_buffer_get_seq_def gst_rtp_buffer_get_payload_type_def
       GST_READ_UINT16_BE_def GST_WRITE_UINT16_BE_def GST_READ_UINT32_BE_def GST_WRITE_UINT32_BE_def be16 be32 pt_bits
       ext_at_def gst_memory_copy_def)

subsection \<open>Reconstruction of the original packet\<close>

text \<open>
  What \<^verbatim>\<open>_gst_rtp_buffer_new_from_rtx\<close> leaves in the padding of the packet it
  builds: the bytes the allocator returned, then the padding length. No byte of the
  incoming padding is read.
\<close>

lemma new_from_rtx_pad:
  assumes "gst_rtp_buffer_new_from_rtx u rtp s1 osn opt = Inr nb"
  shows "pad nb = (if pad rtp = [] then []
                   else map u [0..<length (pad rtp) - 1] @ [of_nat (length (pad rtp))])"
proof -
  have upd: "(map u [0..<Suc k])[k := v] = map u [0..<k] @ [v]" for k :: nat and v
    by (simp add: list_update_append)
  show ?thesis
  proof (cases "pad rtp = []")
    case True
    then show ?thesis
      using assms
      by (auto simp add: gst_rtp_buffer_new_from_rtx_def Let_def gst_rtp_buffer_set_payload_type_def
          gst_rtp_buffer_set_seq_def gst_rtp_buffer_set_ssrc_def split: if_splits)
  next
    case False
    then obtain k where k: "length (pad rtp) = Suc k"
      by (cases "pad rtp") auto
    show ?thesis
      using assms False upd [of k]
      by (auto simp add: gst_rtp_buffer_new_from_rtx_def Let_def gst_rtp_buffer_set_payload_type_def
          gst_rtp_buffer_set_seq_def gst_rtp_buffer_set_ssrc_def gst_allocator_alloc_def k
          split: if_splits)
  qed
qed

text \<open>
  The extension of the packet built is read from offset 0 of the memory that holds the
  incoming extension. For a packet received as one memory these are the first bytes of the
  header, not the extension.
\<close>

lemma extension_copied_from_memory_start:
  "gst_rtp_buffer_new_from_rtx (\<lambda>i. 0) rtx_packet_ext 0xAAAA 50 96 =
     Inr \<lparr>hdr = [0x90, 96, 0, 50, 0, 0, 0, 0, 0, 0, 0xAA, 0xAA],
          ext = [0x90, 97, 0, 9, 0, 0, 0, 0], ext_mem = [0x90, 97, 0, 9, 0, 0, 0, 0],
          pay = [88], pad = []\<rparr> \<and>
   ext rtx_packet_ext = [0xBE, 0xDE, 0, 1, 1, 2, 3, 4] \<and> ext_at 12 rtx_packet_ext"
  by (simp add: gst_rtp_buffer_new_from_rtx_def rtx_packet_ext_def payload_len_from_rtx_def
      gst_allocator_alloc_def memcpy_def Let_def gst_rtp_buffer_set_payload_type_def
      gst_rtp_buffer_set_seq_def gst_rtp_buffer_set_ssrc_def GST_WRITE_UINT16_BE_def
      GST_WRITE_UINT32_BE_def gst_memory_copy_def ext_at_def)

text \<open>
  Claim C1. A reconstructed packet should carry the master SSRC, the original sequence
  number and payload type, and extension and padding regions byte-identical to those of
  the incoming retransmission packet, all padding bytes being copied. The code allocates the
  padding and writes its last byte only: for the incoming padding \<open>AA BB 03\<close> and an
  allocator that returns zeroed memory, the packet pushed ends in \<open>00 00 03\<close>. The header
  fields and the payload are as the claim says; the extension is as the claim says when it
  starts the memory that holds it, see \<open>new_from_rtx_fields\<close> and
  \<open>extension_copied_from_memory_start\<close>.
\<close>

theorem padding_not_copied:
  "gst_rtp_buffer_new_from_rtx (\<lambda>i. 0) rtx_packet_padded 0xAAAA 50 96 =
     Inr \<lparr>hdr = [0xA0, 96, 0, 50, 0, 0, 0, 0, 0, 0, 0xAA, 0xAA], ext = [], ext_mem = [],
          pay = [88], pad = [0, 0, 3]\<rparr> \<and>
   pad rtx_packet_padded = [0xAA, 0xBB, 3]"
  by (simp add: gst_rtp_buffer_new_from_rtx_def rtx_packet_padded_def payload_len_from_rtx_def
      gst_allocator_alloc_def memcpy_def Let_def gst_rtp_buffer_set_payload_type_def
      gst_rtp_buffer_set_seq_def gst_rtp_buffer_set_ssrc_def GST_WRITE_UINT16_BE_def
      GST_WRITE_UINT32_BE_def)

subsection \<open>Retransmission packets with a short payload\<close>

lemma short_payload_general:
  assumes "rtx_pt_map_rx (refresh_rtx_pt_map_rx rtx) (ucast (gst_rtp_buffer_get_payload_type buf)) \<noteq> None"
    and "length (pay buf) < 2"
  shows "gst_rtp_rtx_receive_chain u rtx buf = Inl OutOfBoundsRead"
  using assms by (auto simp add: gst_rtp_rtx_receive_chain_def read_osn_def Let_def)

text \<open>
  Claim C3. A packet of a retransmission payload type whose payload is shorter than two
  bytes should be dropped, with no read beyond the payload and no wrap-around of
  \<open>payload_len - 2\<close>. The code has no such check: for a payload of one byte the
  original sequence number is read from two bytes, the handler does not return the drop,
  and the payload length the reconstruction computes is \<open>1 - 2 = 0xFFFFFFFF\<close>.
\<close>

theorem short_payload_not_dropped:
  "gst_rtp_rtx_receive_chain u rx_associated rtx_packet_short = Inl OutOfBoundsRead \<and>
   payload_len_from_rtx rtx_packet_short = 0xFFFFFFFF"
  by (simp add: gst_rtp_rtx_receive_chain_def rx_associated_def gst_rtp_rtx_receive_init_def
      refresh_rtx_pt_map_rx_def rtx_packet_short_def gst_rtp_buffer_get_payload_type_def
      gst_rtp_buffer_get_ssrc_def read_osn_def payload_len_from_rtx_def)

subsection \<open>Requests at the receiver\<close>




subsection \<open>Association at the receiver\<close>

lemma refresh_rx_tables [simp]:
  "ssrc2_ssrc1_map (refresh_rtx_pt_map_rx rtx) = ssrc2_ssrc1_map rtx"
  "seqnum_ssrc1_map (refresh_rtx_pt_map_rx rtx) = seqnum_ssrc1_map rtx"
  "num_rtx_assoc_packets (refresh_rtx_pt_map_rx rtx) = num_rtx_assoc_packets rtx"
  "num_rtx_packets_rx (refresh_rtx_pt_map_rx rtx) = num_rtx_packets_rx rtx"
  by (simp_all add: refresh_rtx_pt_map_rx_def)

text \<open>
  Claim C7 as stated fails: \<open>num_rtx_assoc_packets\<close> is not the number of packets that
  established a new association. A packet of a stream that is already associated
  establishes none and is counted all the same.
\<close>

theorem existing_association_counted:
  "gst_rtp_rtx_receive_chain (\<lambda>i. 0) rx_associated rtx_packet =
     Inr (rx_associated\<lparr>num_rtx_packets_rx := 1, num_rtx_assoc_packets := 1\<rparr>,
          Pushed \<lparr>hdr = [0x80, 96, 0, 50, 0, 0, 0, 0, 0, 0, 0xAA, 0xAA], ext = [], ext_mem = [],
                  pay = [88], pad = []\<rparr>) \<and>
   ssrc2_ssrc1_map rx_associated 0xBBBB = Some 0xAAAA \<and>
   num_rtx_assoc_packets rx_associated = 0"
  by (simp add: gst_rtp_rtx_receive_chain_def rx_associated_def gst_rtp_rtx_receive_init_def
      refresh_rtx_pt_map_rx_def rtx_packet_def gst_rtp_buffer_get_payload_type_def
      gst_rtp_buffer_get_ssrc_def read_osn_def associate_def GST_READ_UINT16_BE_def
      GST_READ_UINT32_BE_def gst_rtp_buffer_new_from_rtx_def payload_len_from_rtx_def
      gst_allocator_alloc_def memcpy_def Let_def gst_rtp_buffer_set_payload_type_def
      gst_rtp_buffer_set_seq_def gst_rtp_buffer_set_ssrc_def GST_WRITE_UINT16_BE_def
      GST_WRITE_UINT32_BE_def)

text \<open>
  Claim C7, amended. For a packet of a retransmission payload type with at least two bytes of
  payload: when its SSRC has no association and its original sequence number is in the request
  table, the association is recorded in both directions, the entry of that sequence number
  is deleted and \<open>num_rtx_assoc_packets\<close> is incremented; when its SSRC is already
  associated the tables stay as they are and the counter is incremented as well; when neither
  holds the packet is dropped and the counter stays. The counter is thus incremented for
  every retransmission packet that is not dropped.
\<close>

theorem receive_chain_rtx_counted:
  assumes "rtx_pt_map_rx (refresh_rtx_pt_map_rx rtx) (ucast (gst_rtp_buffer_get_payload_type buf)) = Some opt"
    and "2 \<le> length (pay buf)" and "length (pay buf) < 2 ^ 32"
  shows "\<exists>rtx' f. gst_rtp_rtx_receive_chain u rtx buf = Inr (rtx', f) \<and>
           num_rtx_assoc_packets rtx' = num_rtx_assoc_packets rtx + (if f = Dropped then 0 else 1) \<and>
           (\<forall>m. ssrc2_ssrc1_map rtx (gst_rtp_buffer_get_ssrc buf) = None \<and>
                seqnum_ssrc1_map rtx (ucast (GST_READ_UINT16_BE (pay buf) 0)) = Some m \<longrightarrow>
                (\<exists>nb. gst_rtp_buffer_new_from_rtx u buf m (GST_READ_UINT16_BE (pay buf) 0) (ucast opt) = Inr nb \<and>
                      f = Pushed nb) \<and>
                ssrc2_ssrc1_map rtx' =
                  (ssrc2_ssrc1_map rtx)(gst_rtp_buffer_get_ssrc buf \<mapsto> m, m \<mapsto> gst_rtp_buffer_get_ssrc buf) \<and>
                seqnum_ssrc1_map rtx' =
                  (seqnum_ssrc1_map rtx)(ucast (GST_READ_UINT16_BE (pay buf) 0) := None) \<and>
                num_rtx_assoc_packets rtx' = num_rtx_assoc_packets rtx + 1) \<and>
           (\<forall>m. ssrc2_ssrc1_map rtx (gst_rtp_buffer_get_ssrc buf) = Some m \<longrightarrow>
                (\<exists>nb. gst_rtp_buffer_new_from_rtx u buf m (GST_READ_UINT16_BE (pay buf) 0) (ucast opt) = Inr nb \<and>
                      f = Pushed nb) \<and>
                ssrc2_ssrc1_map rtx' = ssrc2_ssrc1_map rtx \<and>
                seqnum_ssrc1_map rtx' = seqnum_ssrc1_map rtx \<and>
                num_rtx_assoc_packets rtx' = num_rtx_assoc_packets rtx + 1) \<and>
           (ssrc2_ssrc1_map rtx (gst_rtp_buffer_get_ssrc buf) = None \<and>
            seqnum_ssrc1_map rtx (ucast (GST_READ_UINT16_BE (pay buf) 0)) = None \<longrightarrow>
              f = Dropped \<and> ssrc2_ssrc1_map rtx' = ssrc2_ssrc1_map rtx \<and>
              seqnum_ssrc1_map rtx' = seqnum_ssrc1_map rtx)"
proof -
  let ?osn = "GST_READ_UINT16_BE (pay buf) 0"
  have osn: "read_osn buf = Inr ?osn"
    using assms(2) by (simp add: read_osn_def)
  have new: "\<exists>nb. gst_rtp_buffer_new_from_rtx u buf m ?osn (ucast opt) = Inr nb" for m
    using new_from_rtx_ok [OF assms(2,3)] by simp
  show ?thesis
  proof (cases "ssrc2_ssrc1_map rtx (gst_rtp_buffer_get_ssrc buf)")
    case (Some m)
    obtain nb where nb: "gst_rtp_buffer_new_from_rtx u buf m ?osn (ucast opt) = Inr nb"
      using new by blast
    show ?thesis
      using assms(1) osn Some nb
      by (simp add: gst_rtp_rtx_receive_chain_def associate_def Let_def)
  next
    case None
    show ?thesis
    proof (cases "seqnum_ssrc1_map rtx (ucast ?osn)")
      case n2: None
      show ?thesis
        using assms(1) osn None n2
        by (simp add: gst_rtp_rtx_receive_chain_def associate_def Let_def)
    next
      case (Some m)
      obtain nb where nb: "gst_rtp_buffer_new_from_rtx u buf m ?osn (ucast opt) = Inr nb"
        using new by blast
      show ?thesis
        using assms(1) osn None Some nb
        by (simp add: gst_rtp_rtx_receive_chain_def associate_def Let_def)
    qed
  qed
qed

theorem receive_chain_rtx_counted_witness:
  "rtx_pt_map_rx (refresh_rtx_pt_map_rx rx_requested)
     (ucast (gst_rtp_buffer_get_payload_type rtx_packet)) = Some 96 \<and>
   2 \<le> length (pay rtx_packet) \<and>
   ssrc2_ssrc1_map rx_requested (gst_rtp_buffer_get_ssrc rtx_packet) = None \<and>
   seqnum_ssrc1_map rx_requested (ucast (GST_READ_UINT16_BE (pay rtx_packet) 0)) = Some 0xAAAA \<and>
   gst_rtp_rtx_receive_chain (\<lambda>i. 0) rx_requested rtx_packet =
     Inr (rx_requested\<lparr>num_rtx_packets_rx := 1, num_rtx_assoc_packets := 1,
            seqnum_ssrc1_map := Map.empty,
            ssrc2_ssrc1_map := [0xBBBB \<mapsto> 0xAAAA, 0xAAAA \<mapsto> 0xBBBB]\<rparr>,
          Pushed \<lparr>hdr = [0x80, 96, 0, 50, 0, 0, 0, 0, 0, 0, 0xAA, 0xAA], ext = [], ext_mem = [],
                  pay = [88], pad = []\<rparr>)"
proof -
  have h1: "rtx_pt_map_rx (refresh_rtx_pt_map_rx rx_requested)
              (ucast (gst_rtp_buffer_get_payload_type rtx_packet)) = Some 96"
    by (simp add: rx_requested_def gst_rtp_rtx_receive_init_def refresh_rtx_pt_map_rx_def
        rtx_packet_def gst_rtp_buffer_get_payload_type_def)
  have h2: "2 \<le> length (pay rtx_packet)"
    by (simp add: rtx_packet_def)
  have h3: "length (pay rtx_packet) < 2 ^ 32"
    by (simp add: rtx_packet_def)
  have s: "gst_rtp_buffer_get_ssrc rtx_packet = 0xBBBB"
    by (simp add: rtx_packet_def gst_rtp_buffer_get_ssrc_def GST_READ_UINT32_BE_def)
  have o: "GST_READ_UINT16_BE (pay rtx_packet) 0 = 50"
    by (simp add: rtx_packet_def GST_READ_UINT16_BE_def)
  have a: "ssrc2_ssrc1_map rx_requested 0xBBBB = None"
    by (simp add: rx_requested_def gst_rtp_rtx_receive_init_def)
  have q: "seqnum_ssrc1_map rx_requested 50 = Some 0xAAAA"
    by (simp add: rx_requested_def gst_rtp_rtx_receive_init_def)
  have n: "gst_rtp_buffer_new_from_rtx (\<lambda>i. 0) rtx_packet 0xAAAA 50 96 =
      Inr \<lparr>hdr = [0x80, 96, 0, 50, 0, 0, 0, 0, 0, 0, 0xAA, 0xAA], ext = [], ext_mem = [], pay = [88], pad = []\<rparr>"
    by (simp add: gst_rtp_buffer_new_from_rtx_def rtx_packet_def payload_len_from_rtx_def
      gst_allocator_alloc_def memcpy_def Let_def gst_rtp_buffer_set_payload_type_def
      gst_rtp_buffer_set_seq_def gst_rtp_buffer_set_ssrc_def GST_WRITE_UINT16_BE_def
      GST_WRITE_UINT32_BE_def)
  have e: "gst_rtp_rtx_receive_chain (\<lambda>i. 0) rx_requested rtx_packet =
     Inr (rx_requested\<lparr>num_rtx_packets_rx := 1, num_rtx_assoc_packets := 1,
            seqnum_ssrc1_map := Map.empty,
            ssrc2_ssrc1_map := [0xBBBB \<mapsto> 0xAAAA, 0xAAAA \<mapsto> 0xBBBB]\<rparr>,
          Pushed \<lparr>hdr = [0x80, 96, 0, 50, 0, 0, 0, 0, 0, 0, 0xAA, 0xAA], ext = [], ext_mem = [],
                  pay = [88], pad = []\<rparr>)"
    by (simp add: gst_rtp_rtx_receive_chain_def rx_requested_def gst_rtp_rtx_receive_init_def
      refresh_rtx_pt_map_rx_def rtx_packet_def gst_rtp_buffer_get_payload_type_def
      gst_rtp_buffer_get_ssrc_def read_osn_def associate_def GST_READ_UINT16_BE_def
      GST_READ_UINT32_BE_def gst_rtp_buffer_new_from_rtx_def payload_len_from_rtx_def
      gst_allocator_alloc_def memcpy_def Let_def gst_rtp_buffer_set_payload_type_def
      gst_rtp_buffer_set_seq_def gst_rtp_buffer_set_ssrc_def GST_WRITE_UINT16_BE_def
      GST_WRITE_UINT32_BE_def)
  show ?thesis
    using receive_chain_rtx_counted [OF h1 h2 h3, of "\<lambda>i. 0"] h1 h2 s o a q e
    by simp
qed

subsection \<open>Evaluating the sender\<close>

lemma master_packet_fields [simp]:
  "gst_rtp_buffer_get_seq (master_packet sq ts) = sq"
  "gst_rtp_buffer_get_timestamp (master_packet sq ts) = ts"
  "gst_rtp_buffer_get_ssrc (master_packet sq ts) = 0xAAAA"
  "gst_rtp_buffer_get_payload_type (master_packet sq ts) = 96"
  by (simp_all add: master_packet_def gst_rtp_buffer_get_seq_def gst_rtp_buffer_get_timestamp_def
      gst_rtp_buffer_get_ssrc_def gst_rtp_buffer_get_payload_type_def GST_READ_UINT16_BE_def
      GST_READ_UINT32_BE_def GST_WRITE_UINT16_BE_def GST_WRITE_UINT32_BE_def be16 be32)

lemmas sender_defs = gst_rtp_rtx_send_chain_def refresh_rtx_pt_map_def store_in_history_def
  gst_rtp_rtx_send_get_ssrc_data_def gst_rtp_rtx_send_choose_ssrc_def g_random_int_def
  choose_ssrc_loop.simps ssrc_rtx_data_new_def g_random_int_range_def G_MAXUINT16_def
  detach_pending_def gst_rtp_rtx_send_init_def DEFAULT_MAX_SIZE_PACKETS_def
  DEFAULT_MAX_SIZE_TIME_def Let_def history_seqnums_def tx_example_def history_item_def

subsection \<open>The time bound of the history\<close>

text \<open>
  With a clock rate that is not positive, \<^verbatim>\<open>gst_rtp_rtx_send_get_ts_diff\<close> is
  \<^verbatim>\<open>G_MAXUINT32\<close> for every history of two items or more.
\<close>

lemma ts_diff_without_clock_rate:
  assumes "sint (clock_rate d) \<le> 0" and "queue d = a # b # rest"
  shows "gst_rtp_rtx_send_get_ts_diff d = 0xFFFFFFFF"
  using assms
  by (simp add: gst_rtp_rtx_send_get_ts_diff_def gst_util_uint64_scale_int_def G_MAXUINT64_def Let_def)

text \<open>
  Claim C4. For an SSRC whose clock rate is zero or negative the time bound should be
  inactive: no division by the clock rate, no item removed. The code passes the clock rate to
  \<^verbatim>\<open>gst_util_uint64_scale_int\<close> unchecked. With \<open>max-size-time = 1000\<close> and no caps
  seen (clock rate 0), the second packet of a stream evicts the first: the history holds
  sequence number 2 alone, where without the time bound it holds 1 and 2.
\<close>

theorem time_bound_without_clock_rate:
  "map_option (\<lambda>(s, out). (history_seqnums s 0xAAAA, map_option clock_rate (ssrc_data s 0xAAAA)))
     (chain_all (tx_example\<lparr>max_size_time := 1000\<rparr>) [master_packet 1 0, master_packet 2 160])
     = Some ([2], Some 0) \<and>
   map_option (\<lambda>(s, out). (history_seqnums s 0xAAAA, map_option clock_rate (ssrc_data s 0xAAAA)))
     (chain_all (tx_example\<lparr>max_size_time := 0\<rparr>) [master_packet 1 0, master_packet 2 160])
     = Some ([1, 2], Some 0)"
  by (simp add: sender_defs gst_rtp_rtx_send_get_ts_diff_def gst_util_uint64_scale_int_def
      G_MAXUINT64_def)

subsection \<open>The choice of the retransmission SSRC\<close>

text \<open>
  Claim C5. The retransmission SSRC of an entry should differ from its master SSRC, and no
  SSRC should be a key of both tables, also when the entry is created.
  \<^verbatim>\<open>gst_rtp_rtx_send_get_ssrc_data\<close> chooses the retransmission SSRC before the
  master is inserted in \<open>ssrc_data\<close>, so \<^verbatim>\<open>gst_rtp_rtx_send_choose_ssrc\<close> accepts the
  master SSRC itself: from the external map when it maps \<open>0xAAAA\<close> to \<open>0xAAAA\<close>, and
  from the generator when it returns \<open>0xAAAA\<close>.
\<close>

theorem rtx_ssrc_equal_to_master:
  "map_option (\<lambda>(s, out). (map_option rtx_ssrc (ssrc_data s 0xAAAA), rtx_ssrcs s 0xAAAA))
     (gst_rtp_rtx_send_chain (tx_example\<lparr>external_ssrc_map := Some [0xAAAA \<mapsto> 0xAAAA]\<rparr>)
        (master_packet 1 0))
     = Some (Some 0xAAAA, Some 0xAAAA) \<and>
   map_option (\<lambda>(s, out). (map_option rtx_ssrc (ssrc_data s 0xAAAA), rtx_ssrcs s 0xAAAA))
     (gst_rtp_rtx_send_chain (tx_example\<lparr>g_random := (\<lambda>i. 0xAAAA)\<rparr>) (master_packet 1 0))
     = Some (Some 0xAAAA, Some 0xAAAA)"
  by (simp add: sender_defs)

subsection \<open>The first retransmission sequence number\<close>

text \<open>
  Claim C8. The first sequence number of an entry should be any 16-bit value, 65535
  included. \<^verbatim>\<open>g_random_int_range (0, G_MAXUINT16)\<close> excludes its upper bound, so 65535 is
  never the first sequence number.
\<close>

theorem initial_seqnum_never_65535:
  "next_seqnum (fst (ssrc_rtx_data_new rtx r)) \<noteq> 65535"
proof -
  let ?v = "uint (g_random rtx 0) mod 65535"
  have r: "0 \<le> ?v" "?v < 65535"
    by simp_all
  have "uint (word_of_int ?v :: guint16) = ?v"
    using r by (simp add: uint_word_of_int)
  then have "(word_of_int ?v :: guint16) \<noteq> 65535"
    using r by auto
  then show ?thesis
    by (simp add: ssrc_rtx_data_new_def g_random_int_range_def G_MAXUINT16_def)
qed

subsection \<open>Requests at the sender\<close>

lemma get_ssrc_data_known:
  "ssrc_data rtx ssrc = Some d \<Longrightarrow> gst_rtp_rtx_send_get_ssrc_data rtx ssrc = Some (d, rtx)"
  by (simp add: gst_rtp_rtx_send_get_ssrc_data_def)

text \<open>
  Claim C9. Every \<open>GstRTPRetransmissionRequest\<close> that arrives on the source pad of the
  sender is consumed: the handler returns \<^verbatim>\<open>TRUE\<close> and does not pass the event on,
  whatever its fields and whatever layout the history has. When the requested SSRC is not a
  key of \<open>ssrc_data\<close> the element is left exactly as it was, its counters and its pending
  queue included.
\<close>

theorem send_request_consumed:
  "(\<exists>rtx'. gst_rtp_rtx_send_src_event layout rtx (GstRTPRetransmissionRequest sq ss) =
            Some (rtx', Consumed)) \<and>
   (ssrc_data rtx (case ss of Some v \<Rightarrow> v | None \<Rightarrow> - 1) = None \<longrightarrow>
      gst_rtp_rtx_send_src_event layout rtx (GstRTPRetransmissionRequest sq ss) =
        Some (rtx, Consumed))"
proof (cases "ssrc_data rtx (case ss of Some v \<Rightarrow> v | None \<Rightarrow> - 1)")
  case None
  then show ?thesis
    by (simp add: gst_rtp_rtx_send_src_event_def)
next
  case (Some d)
  then have "gst_rtp_rtx_send_get_ssrc_data (rtx\<lparr>num_rtx_requests := num_rtx_requests rtx + 1\<rparr>)
               (case ss of Some v \<Rightarrow> v | None \<Rightarrow> - 1)
             = Some (d, rtx\<lparr>num_rtx_requests := num_rtx_requests rtx + 1\<rparr>)"
    by (simp add: get_ssrc_data_known)
  with Some show ?thesis
    by (simp add: gst_rtp_rtx_send_src_event_def split: option.split)
qed

theorem send_request_consumed_witness:
  "ssrc_data tx_example 0xAAAA = None \<and>
   gst_rtp_rtx_send_src_event right_spine tx_example
     (GstRTPRetransmissionRequest (Some 11) (Some 0xAAAA)) = Some (tx_example, Consumed)"
proof -
  have n: "ssrc_data tx_example 0xAAAA = None"
    by (simp add: tx_example_def gst_rtp_rtx_send_init_def)
  show ?thesis
    using send_request_consumed [of right_spine tx_example "Some 11" "Some 0xAAAA"] n
    by simp
qed

subsection \<open>Looking up a sorted history\<close>

lemma sint_minus_nonneg:
  fixes w :: guint16
  assumes "0 \<le> sint w"
  shows "sint (- w) = - sint w"
proof -
  have "sint w < 2 ^ 15"
    using sint_lt [of w] by simp
  then have "- (2 ^ 15) \<le> - sint w" "- sint w < 2 ^ 15"
    using assms by simp_all
  then have "signed_take_bit 15 (- sint w) = - sint w"
    by (simp add: signed_take_bit_int_eq_self)
  then show ?thesis
    by (simp add: sint_word_ariths)
qed

lemma compare_seqnum_zero:
  "gst_rtp_buffer_compare_seqnum a b = 0 \<longleftrightarrow> a = b"
  by (auto simp add: gst_rtp_buffer_compare_seqnum_def signed_eq_0_iff)

lemma compare_seqnum_flip:
  assumes "0 \<le> gst_rtp_buffer_compare_seqnum a b"
  shows "gst_rtp_buffer_compare_seqnum b a \<le> 0"
proof -
  have "a - b = - (b - a)" by simp
  then show ?thesis
    using assms sint_minus_nonneg [of "b - a"]
    by (simp add: gst_rtp_buffer_compare_seqnum_def)
qed

lemma node_find_sorted:
  assumes "history_sorted (inorder t)" and "x \<in> set (inorder t)" and "seqnum x = seqnum needle"
  shows "\<exists>found. node_find t needle = Some found \<and> found \<in> set (inorder t) \<and>
           seqnum found = seqnum needle"
  using assms
proof (induction t)
  case Leaf
  then show ?case by simp
next
  case (Node l h r)
  let ?c = "buffer_queue_items_cmp h needle"
  have sl: "history_sorted (inorder l)" and sr: "history_sorted (inorder r)"
    and lh: "\<forall>a\<in>set (inorder l). 0 \<le> gst_rtp_buffer_compare_seqnum (seqnum a) (seqnum h)"
    and hr: "\<forall>b\<in>set (inorder r). 0 \<le> gst_rtp_buffer_compare_seqnum (seqnum h) (seqnum b)"
    using Node.prems(1) by (auto simp add: history_sorted_def sorted_wrt_append)
  have c: "?c = gst_rtp_buffer_compare_seqnum (seqnum x) (seqnum h)"
    using Node.prems(3) by (simp add: buffer_queue_items_cmp_def)
  consider "?c = 0" | "0 < ?c" | "?c < 0"
    by linarith
  then show ?case
  proof cases
    case 1
    then have "seqnum h = seqnum needle"
      by (simp add: buffer_queue_items_cmp_def compare_seqnum_zero)
    with 1 show ?thesis by simp
  next
    case 2
    have "x \<noteq> h"
      using 2 c by (auto simp add: compare_seqnum_zero [THEN iffD2])
    moreover have "x \<notin> set (inorder r)"
    proof
      assume "x \<in> set (inorder r)"
      then have "0 \<le> gst_rtp_buffer_compare_seqnum (seqnum h) (seqnum x)"
        using hr by blast
      then have "gst_rtp_buffer_compare_seqnum (seqnum x) (seqnum h) \<le> 0"
        by (rule compare_seqnum_flip)
      then show False using 2 c by simp
    qed
    ultimately have "x \<in> set (inorder l)"
      using Node.prems(2) by auto
    then obtain found where "node_find l needle = Some found" "found \<in> set (inorder l)"
        "seqnum found = seqnum needle"
      using Node.IH(1) [OF sl _ Node.prems(3)] by blast
    with 2 show ?thesis by simp
  next
    case 3
    have "x \<noteq> h"
      using 3 c by (auto simp add: compare_seqnum_zero [THEN iffD2])
    moreover have "x \<notin> set (inorder l)"
    proof
      assume "x \<in> set (inorder l)"
      then have "0 \<le> gst_rtp_buffer_compare_seqnum (seqnum x) (seqnum h)"
        using lh by blast
      then show False using 3 c by simp
    qed
    ultimately have "x \<in> set (inorder r)"
      using Node.prems(2) by auto
    then obtain found where "node_find r needle = Some found" "found \<in> set (inorder r)"
        "seqnum found = seqnum needle"
      using Node.IH(2) [OF sr _ Node.prems(3)] by blast
    with 3 show ?thesis by simp
  qed
qed

subsection \<open>The loop that chooses a retransmission SSRC\<close>

text \<open>
  The loop returns as soon as the candidate is in neither table, it changes nothing but
  the generator, and it ends when the generator will return an unused value.
\<close>

lemma choose_ssrc_loop_free:
  "ssrc_data rtx c = None \<Longrightarrow> rtx_ssrcs rtx c = None \<Longrightarrow> choose_ssrc_loop rtx c = Some (c, rtx)"
  by (subst choose_ssrc_loop.simps) simp

lemma choose_ssrc_loop_frame:
  "choose_ssrc_loop rtx c = Some y \<Longrightarrow>
     (\<exists>g. snd y = rtx\<lparr>g_random := g\<rparr>) \<and> ssrc_data rtx (fst y) = None \<and> rtx_ssrcs rtx (fst y) = None"
proof (induction rtx c y rule: choose_ssrc_loop.raw_induct [rotated 1, consumes 1, case_names step])
  case (step f rtx c y)
  note 1 = step
  show ?case
  proof (cases "ssrc_data rtx c \<noteq> None \<or> rtx_ssrcs rtx c \<noteq> None")
    case True
    then have "f (snd (g_random_int rtx)) (fst (g_random_int rtx)) = Some y"
      using 1(2) by simp
    from 1(1) [OF this] show ?thesis
      by (auto simp add: g_random_int_def)
  next
    case False
    then have "y = (c, rtx)"
      using 1(2) by auto
    with False show ?thesis
      by (auto intro: exI [of _ "g_random rtx"])
  qed
qed

lemma choose_ssrc_loop_returns:
  "ssrc_data rtx (g_random rtx i) = None \<Longrightarrow> rtx_ssrcs rtx (g_random rtx i) = None \<Longrightarrow>
     \<exists>y. choose_ssrc_loop rtx c = Some y"
proof (induction i arbitrary: rtx c)
  case 0
  show ?case
  proof (cases "ssrc_data rtx c \<noteq> None \<or> rtx_ssrcs rtx c \<noteq> None")
    case True
    have "choose_ssrc_loop (snd (g_random_int rtx)) (fst (g_random_int rtx))
            = Some (fst (g_random_int rtx), snd (g_random_int rtx))"
      using 0 by (intro choose_ssrc_loop_free) (simp_all add: g_random_int_def)
    then show ?thesis
      using True by (subst choose_ssrc_loop.simps) simp
  next
    case False
    then show ?thesis
      by (simp add: choose_ssrc_loop_free)
  qed
next
  case (Suc i)
  show ?case
  proof (cases "ssrc_data rtx c \<noteq> None \<or> rtx_ssrcs rtx c \<noteq> None")
    case True
    have "\<exists>y. choose_ssrc_loop (snd (g_random_int rtx)) (fst (g_random_int rtx)) = Some y"
      using Suc.prems by (intro Suc.IH) (simp_all add: g_random_int_def)
    then show ?thesis
      using True by (subst choose_ssrc_loop.simps) simp
  next
    case False
    then show ?thesis
      by (simp add: choose_ssrc_loop_free)
  qed
qed

lemma choose_ssrc_returns:
  assumes "generator_yields_unused rtx"
  shows "\<exists>y. gst_rtp_rtx_send_choose_ssrc rtx choice consider_choice = Some y"
proof -
  obtain i where i: "ssrc_data rtx (g_random rtx i) = None" "rtx_ssrcs rtx (g_random rtx i) = None"
    using assms by (auto simp add: generator_yields_unused_def)
  show ?thesis
  proof (cases consider_choice)
    case True
    then show ?thesis
      using choose_ssrc_loop_returns [OF i] by (simp add: gst_rtp_rtx_send_choose_ssrc_def)
  next
    case False
    have "\<exists>y. choose_ssrc_loop (snd (g_random_int rtx)) (fst (g_random_int rtx)) = Some y"
    proof (cases i)
      case 0
      then show ?thesis
        using i by (simp add: choose_ssrc_loop_free g_random_int_def)
    next
      case (Suc j)
      then show ?thesis
        using i by (intro choose_ssrc_loop_returns [of _ j]) (simp_all add: g_random_int_def)
    qed
    with False show ?thesis
      by (simp add: gst_rtp_rtx_send_choose_ssrc_def)
  qed
qed

lemma choose_ssrc_frame:
  assumes "gst_rtp_rtx_send_choose_ssrc rtx choice consider_choice = Some (r, rtx1)"
  shows "\<exists>g. rtx1 = rtx\<lparr>g_random := g\<rparr>"
proof (cases consider_choice)
  case True
  then show ?thesis
    using assms choose_ssrc_loop_frame [of rtx choice "(r, rtx1)"]
    by (simp add: gst_rtp_rtx_send_choose_ssrc_def)
next
  case False
  then show ?thesis
    using assms choose_ssrc_loop_frame [of "snd (g_random_int rtx)" "fst (g_random_int rtx)" "(r, rtx1)"]
    by (auto simp add: gst_rtp_rtx_send_choose_ssrc_def g_random_int_def)
qed

text \<open>What \<^verbatim>\<open>gst_rtp_rtx_send_get_ssrc_data\<close> changes and what it leaves alone.\<close>

lemma get_ssrc_data_frame:
  assumes "gst_rtp_rtx_send_get_ssrc_data rtx ssrc = Some (data, rtx1)"
  shows "ssrc_data rtx1 ssrc = Some data"
    and "\<forall>s. s \<noteq> ssrc \<longrightarrow> ssrc_data rtx1 s = ssrc_data rtx s"
    and "ssrc_data rtx ssrc = None \<longrightarrow> queue data = []"
    and "\<forall>d. ssrc_data rtx ssrc = Some d \<longrightarrow> data = d"
    and "pending rtx1 = pending rtx" and "num_rtx_packets rtx1 = num_rtx_packets rtx"
    and "num_rtx_requests rtx1 = num_rtx_requests rtx"
    and "rtx_pt_map rtx1 = rtx_pt_map rtx" and "max_size_time rtx1 = max_size_time rtx"
    and "max_size_packets rtx1 = max_size_packets rtx"
proof -
  have "ssrc_data rtx1 ssrc = Some data \<and> (\<forall>s. s \<noteq> ssrc \<longrightarrow> ssrc_data rtx1 s = ssrc_data rtx s) \<and>
     (ssrc_data rtx ssrc = None \<longrightarrow> queue data = []) \<and> (\<forall>d. ssrc_data rtx ssrc = Some d \<longrightarrow> data = d) \<and>
     pending rtx1 = pending rtx \<and> num_rtx_packets rtx1 = num_rtx_packets rtx \<and>
     num_rtx_requests rtx1 = num_rtx_requests rtx \<and>
     rtx_pt_map rtx1 = rtx_pt_map rtx \<and> max_size_time rtx1 = max_size_time rtx \<and>
     max_size_packets rtx1 = max_size_packets rtx"
  proof (cases "ssrc_data rtx ssrc")
    case (Some d)
    then show ?thesis
      using assms by (simp add: gst_rtp_rtx_send_get_ssrc_data_def)
  next
    case None
    let ?found = "case external_ssrc_map rtx of None \<Rightarrow> None | Some m \<Rightarrow> m ssrc"
    obtain r rtxc where c: "gst_rtp_rtx_send_choose_ssrc rtx
        (case ?found of Some v \<Rightarrow> v | None \<Rightarrow> 0) (?found \<noteq> None) = Some (r, rtxc)"
      using assms None
      by (auto simp add: gst_rtp_rtx_send_get_ssrc_data_def Let_def split: option.splits)
    obtain g where g: "rtxc = rtx\<lparr>g_random := g\<rparr>"
      using choose_ssrc_frame [OF c] by blast
    show ?thesis
      using assms None c
      by (auto simp add: gst_rtp_rtx_send_get_ssrc_data_def Let_def ssrc_rtx_data_new_def
          g_random_int_range_def g)
  qed
  then show "ssrc_data rtx1 ssrc = Some data"
    and "\<forall>s. s \<noteq> ssrc \<longrightarrow> ssrc_data rtx1 s = ssrc_data rtx s"
    and "ssrc_data rtx ssrc = None \<longrightarrow> queue data = []"
    and "\<forall>d. ssrc_data rtx ssrc = Some d \<longrightarrow> data = d"
    and "pending rtx1 = pending rtx" and "num_rtx_packets rtx1 = num_rtx_packets rtx"
    and "num_rtx_requests rtx1 = num_rtx_requests rtx"
    and "rtx_pt_map rtx1 = rtx_pt_map rtx" and "max_size_time rtx1 = max_size_time rtx"
    and "max_size_packets rtx1 = max_size_packets rtx"
    by blast+
qed

lemma get_ssrc_data_returns:
  assumes "generator_yields_unused rtx \<or> ssrc_data rtx ssrc \<noteq> None"
  shows "\<exists>y. gst_rtp_rtx_send_get_ssrc_data rtx ssrc = Some y"
proof (cases "ssrc_data rtx ssrc")
  case (Some d)
  then show ?thesis
    by (simp add: gst_rtp_rtx_send_get_ssrc_data_def)
next
  case None
  then have "generator_yields_unused rtx"
    using assms by simp
  then obtain y where "gst_rtp_rtx_send_choose_ssrc rtx
        (case (case external_ssrc_map rtx of None \<Rightarrow> None | Some m \<Rightarrow> m ssrc) of Some v \<Rightarrow> v | None \<Rightarrow> 0)
        ((case external_ssrc_map rtx of None \<Rightarrow> None | Some m \<Rightarrow> m ssrc) \<noteq> None) = Some y"
    using choose_ssrc_returns by blast
  then show ?thesis
    using None
    by (cases y) (simp add: gst_rtp_rtx_send_get_ssrc_data_def Let_def split: prod.splits)
qed

subsection \<open>Storing a buffer in the history\<close>

text \<open>
  Both eviction loops remove items from the front only: what they leave is a suffix of the
  history.
\<close>

declare evict_packets.simps [simp del] evict_time.simps [simp del]

lemma evict_packets_suffix: "\<exists>k. evict_packets m q = drop k q"
proof (induction m q rule: evict_packets.induct)
  case (1 m q)
  show ?case
  proof (cases "unat m < length q")
    case True
    then obtain k where "evict_packets m (tl q) = drop k (tl q)"
      using 1 by blast
    then have "evict_packets m q = drop (Suc k) q"
      using True by (subst evict_packets.simps) (simp add: drop_Suc)
    then show ?thesis by blast
  next
    case False
    then have "evict_packets m q = drop 0 q"
      by (subst evict_packets.simps) simp
    then show ?thesis by blast
  qed
qed

lemma evict_time_suffix: "\<exists>k. evict_time m d = d\<lparr>queue := drop k (queue d)\<rparr>"
proof (induction m d rule: evict_time.induct)
  case (1 m d)
  show ?case
  proof (cases "m < gst_rtp_rtx_send_get_ts_diff d")
    case True
    then obtain k where "evict_time m (d\<lparr>queue := tl (queue d)\<rparr>) =
        d\<lparr>queue := tl (queue d)\<rparr>\<lparr>queue := drop k (queue (d\<lparr>queue := tl (queue d)\<rparr>))\<rparr>"
      using 1 by blast
    then have "evict_time m d = d\<lparr>queue := drop (Suc k) (queue d)\<rparr>"
      using True by (subst evict_time.simps) (simp add: drop_Suc)
    then show ?thesis by blast
  next
    case False
    then have "evict_time m d = d\<lparr>queue := drop 0 (queue d)\<rparr>"
      by (subst evict_time.simps) simp
    then show ?thesis by blast
  qed
qed

lemma store_in_history_frame:
  assumes "store_in_history rtx buf = Some rtx'"
  shows "\<exists>k. history rtx' (gst_rtp_buffer_get_ssrc buf) =
           drop k (history rtx (gst_rtp_buffer_get_ssrc buf) @ [history_item buf])"
    and "\<forall>s. s \<noteq> gst_rtp_buffer_get_ssrc buf \<longrightarrow> ssrc_data rtx' s = ssrc_data rtx s"
    and "\<forall>d. ssrc_data rtx (gst_rtp_buffer_get_ssrc buf) = Some d \<longrightarrow>
           (\<exists>d'. ssrc_data rtx' (gst_rtp_buffer_get_ssrc buf) = Some d' \<and>
                 rtx_ssrc d' = rtx_ssrc d \<and> next_seqnum d' = next_seqnum d)"
    and "pending rtx' = pending rtx" and "num_rtx_packets rtx' = num_rtx_packets rtx"
    and "num_rtx_requests rtx' = num_rtx_requests rtx" and "rtx_pt_map rtx' = rtx_pt_map rtx"
proof -
  let ?ssrc = "gst_rtp_buffer_get_ssrc buf"
  obtain data rtx1 where g: "gst_rtp_rtx_send_get_ssrc_data rtx ?ssrc = Some (data, rtx1)"
    using assms by (auto simp add: store_in_history_def Let_def split: option.splits)
  note f = get_ssrc_data_frame [OF g]
  let ?q = "queue data @ [history_item buf]"
  let ?mp = "max_size_packets rtx1" and ?mt = "max_size_time rtx1"
  obtain kp where kp: "evict_packets ?mp ?q = drop kp ?q"
    using evict_packets_suffix by blast
  obtain ka where ka: "evict_time ?mt (data\<lparr>queue := drop kp ?q\<rparr>) =
      data\<lparr>queue := drop ka (drop kp ?q)\<rparr>"
    using evict_time_suffix [of ?mt "data\<lparr>queue := drop kp ?q\<rparr>"] by auto
  obtain kb where kb: "evict_time ?mt (data\<lparr>queue := ?q\<rparr>) = data\<lparr>queue := drop kb ?q\<rparr>"
    using evict_time_suffix [of ?mt "data\<lparr>queue := ?q\<rparr>"] by auto
  have "\<exists>k. rtx' = rtx1\<lparr>ssrc_data := (ssrc_data rtx1)(?ssrc \<mapsto> data\<lparr>queue := drop k ?q\<rparr>)\<rparr>"
  proof -
    consider (a) "?mp \<noteq> 0" "?mt \<noteq> 0" | (b) "?mp \<noteq> 0" "?mt = 0"
      | (c) "?mp = 0" "?mt \<noteq> 0" | (d) "?mp = 0" "?mt = 0"
      by blast
    then show ?thesis
    proof cases
      case a
      then have "rtx' = rtx1\<lparr>ssrc_data := (ssrc_data rtx1)(?ssrc \<mapsto> data\<lparr>queue := drop (kp + ka) ?q\<rparr>)\<rparr>"
        using assms g by (simp add: store_in_history_def Let_def kp ka add.commute del: drop_append)
      then show ?thesis by blast
    next
      case b
      then have "rtx' = rtx1\<lparr>ssrc_data := (ssrc_data rtx1)(?ssrc \<mapsto> data\<lparr>queue := drop kp ?q\<rparr>)\<rparr>"
        using assms g by (simp add: store_in_history_def Let_def kp del: drop_append)
      then show ?thesis by blast
    next
      case c
      then have "rtx' = rtx1\<lparr>ssrc_data := (ssrc_data rtx1)(?ssrc \<mapsto> data\<lparr>queue := drop kb ?q\<rparr>)\<rparr>"
        using assms g by (simp add: store_in_history_def Let_def kb del: drop_append)
      then show ?thesis by blast
    next
      case d
      then have "rtx' = rtx1\<lparr>ssrc_data := (ssrc_data rtx1)(?ssrc \<mapsto> data\<lparr>queue := drop 0 ?q\<rparr>)\<rparr>"
        using assms g by (simp add: store_in_history_def Let_def)
      then show ?thesis by blast
    qed
  qed
  then obtain k where r: "rtx' = rtx1\<lparr>ssrc_data := (ssrc_data rtx1)(?ssrc \<mapsto> data\<lparr>queue := drop k ?q\<rparr>)\<rparr>"
    by blast
  have hq: "history rtx ?ssrc = queue data"
    using f(3,4) by (cases "ssrc_data rtx ?ssrc") (auto simp add: history_def)
  show "\<exists>k. history rtx' ?ssrc = drop k (history rtx ?ssrc @ [history_item buf])"
    unfolding r hq by (auto simp add: history_def)
  show "\<forall>s. s \<noteq> ?ssrc \<longrightarrow> ssrc_data rtx' s = ssrc_data rtx s"
    unfolding r using f(2) by simp
  show "\<forall>d. ssrc_data rtx ?ssrc = Some d \<longrightarrow>
           (\<exists>d'. ssrc_data rtx' ?ssrc = Some d' \<and> rtx_ssrc d' = rtx_ssrc d \<and> next_seqnum d' = next_seqnum d)"
    unfolding r using f(4) by auto
  show "pending rtx' = pending rtx" "num_rtx_packets rtx' = num_rtx_packets rtx"
    "num_rtx_requests rtx' = num_rtx_requests rtx" "rtx_pt_map rtx' = rtx_pt_map rtx"
    unfolding r using f by simp_all
qed

lemma store_in_history_returns:
  assumes "generator_yields_unused rtx \<or> ssrc_data rtx (gst_rtp_buffer_get_ssrc buf) \<noteq> None"
  shows "\<exists>rtx'. store_in_history rtx buf = Some rtx'"
proof -
  obtain y where "gst_rtp_rtx_send_get_ssrc_data rtx (gst_rtp_buffer_get_ssrc buf) = Some y"
    using get_ssrc_data_returns [OF assms] by blast
  then show ?thesis
    by (cases y) (simp add: store_in_history_def Let_def)
qed

subsection \<open>The retransmission packets\<close>

lemma new_rtx_header:
  assumes "12 \<le> length (hdr b)"
  shows "gst_rtp_buffer_get_seq
           (gst_rtp_buffer_set_padding
              (gst_rtp_buffer_set_payload_type
                 (gst_rtp_buffer_set_seq (gst_rtp_buffer_set_ssrc b r) sq) fmtp) p) = sq"
    and "gst_rtp_buffer_get_ssrc
           (gst_rtp_buffer_set_padding
              (gst_rtp_buffer_set_payload_type
                 (gst_rtp_buffer_set_seq (gst_rtp_buffer_set_ssrc b r) sq) fmtp) p) = r"
  using assms
  by (simp_all add: gst_rtp_buffer_set_padding_def gst_rtp_buffer_set_payload_type_def
      gst_rtp_buffer_set_seq_def gst_rtp_buffer_set_ssrc_def gst_rtp_buffer_get_seq_def
      gst_rtp_buffer_get_ssrc_def GST_READ_UINT16_BE_def GST_WRITE_UINT16_BE_def
      GST_READ_UINT32_BE_def GST_WRITE_UINT32_BE_def be16 be32)

lemma new_rtx_regions:
  "ext (gst_rtp_buffer_set_padding
          (gst_rtp_buffer_set_payload_type
             (gst_rtp_buffer_set_seq (gst_rtp_buffer_set_ssrc b r) sq) fmtp) p) = ext b"
  "pay (gst_rtp_buffer_set_padding
          (gst_rtp_buffer_set_payload_type
             (gst_rtp_buffer_set_seq (gst_rtp_buffer_set_ssrc b r) sq) fmtp) p) = pay b"
  "pad (gst_rtp_buffer_set_padding
          (gst_rtp_buffer_set_payload_type
             (gst_rtp_buffer_set_seq (gst_rtp_buffer_set_ssrc b r) sq) fmtp) p) = pad b"
  by (simp_all add: gst_rtp_buffer_set_padding_def gst_rtp_buffer_set_payload_type_def
      gst_rtp_buffer_set_seq_def gst_rtp_buffer_set_ssrc_def)

lemma rtx_buffer_new_known:
  assumes "ssrc_data rtx (gst_rtp_buffer_get_ssrc b) = Some d"
  shows "\<exists>nb. gst_rtp_rtx_buffer_new rtx b =
           Some (rtx\<lparr>ssrc_data := (ssrc_data rtx)(gst_rtp_buffer_get_ssrc b \<mapsto>
                                       d\<lparr>next_seqnum := next_seqnum d + 1\<rparr>)\<rparr>, nb) \<and>
           (12 \<le> length (hdr b) \<longrightarrow>
              gst_rtp_buffer_get_seq nb = next_seqnum d \<and> gst_rtp_buffer_get_ssrc nb = rtx_ssrc d) \<and>
           ext nb = gst_memory_copy (ext_mem b) 0 (length (ext b)) \<and>
           pay nb = GST_WRITE_UINT16_BE [0, 0] 0 (gst_rtp_buffer_get_seq b) @ pay b \<and>
           pad nb = []"
  using assms
  by (simp add: gst_rtp_rtx_buffer_new_def get_ssrc_data_known Let_def new_rtx_header
      new_rtx_regions gst_memory_copy_def)

lemma history_upd_seqnum:
  "ssrc_data rtx s = Some d \<Longrightarrow>
     history (rtx\<lparr>ssrc_data := (ssrc_data rtx)(s \<mapsto> d\<lparr>next_seqnum := n\<rparr>)\<rparr>) s' = history rtx s'"
  by (simp add: history_def)

lemma rtx_buffer_new_frame:
  assumes "gst_rtp_rtx_buffer_new rtx b = Some (rtx', nb)"
  shows "history rtx' s = history rtx s" and "pending rtx' = pending rtx"
    and "num_rtx_packets rtx' = num_rtx_packets rtx"
    and "num_rtx_requests rtx' = num_rtx_requests rtx"
proof -
  let ?ssrc = "gst_rtp_buffer_get_ssrc b"
  obtain data rtx1 where g: "gst_rtp_rtx_send_get_ssrc_data rtx ?ssrc = Some (data, rtx1)"
    using assms by (auto simp add: gst_rtp_rtx_buffer_new_def Let_def split: option.splits)
  note f = get_ssrc_data_frame [OF g]
  have r: "rtx' = rtx1\<lparr>ssrc_data := (ssrc_data rtx1)(?ssrc \<mapsto> data\<lparr>next_seqnum := next_seqnum data + 1\<rparr>)\<rparr>"
    using assms g by (simp add: gst_rtp_rtx_buffer_new_def Let_def)
  have "history rtx1 s = history rtx s"
  proof (cases "s = ?ssrc")
    case True
    then show ?thesis
      using f(1,3,4) by (cases "ssrc_data rtx ?ssrc") (auto simp add: history_def)
  next
    case False
    then show ?thesis
      using f(2) by (simp add: history_def)
  qed
  then show "history rtx' s = history rtx s"
    unfolding r using history_upd_seqnum [OF f(1)] by simp
  show "pending rtx' = pending rtx" "num_rtx_packets rtx' = num_rtx_packets rtx"
    "num_rtx_requests rtx' = num_rtx_requests rtx"
    unfolding r using f by simp_all
qed

lemma do_push_frame:
  "do_push rtx bs = Some (rtx', out) \<Longrightarrow>
     history rtx' s = history rtx s \<and> pending rtx' = pending rtx \<and>
     num_rtx_packets rtx' = num_rtx_packets rtx \<and> num_rtx_requests rtx' = num_rtx_requests rtx"
proof (induction bs arbitrary: rtx out)
  case Nil
  then show ?case by simp
next
  case (Cons b bs)
  obtain rtx1 nb where n: "gst_rtp_rtx_buffer_new rtx b = Some (rtx1, nb)"
    using Cons.prems by (auto split: option.splits)
  obtain out1 where p: "do_push rtx1 bs = Some (rtx', out1)"
    using Cons.prems n by (auto split: option.splits)
  show ?case
    using Cons.IH [OF p] rtx_buffer_new_frame [OF n] by simp
qed

lemma do_push_replicate:
  assumes "ssrc_data rtx (gst_rtp_buffer_get_ssrc b) = Some d" and "12 \<le> length (hdr b)"
  shows "\<exists>rtx' out. do_push rtx (replicate n b) = Some (rtx', out) \<and> length out = n \<and>
           (\<forall>i<n. gst_rtp_buffer_get_seq (out ! i) = next_seqnum d + of_nat i \<and>
                  gst_rtp_buffer_get_ssrc (out ! i) = rtx_ssrc d \<and>
                  ext (out ! i) = gst_memory_copy (ext_mem b) 0 (length (ext b)) \<and>
                  pay (out ! i) = GST_WRITE_UINT16_BE [0, 0] 0 (gst_rtp_buffer_get_seq b) @ pay b \<and>
                  pad (out ! i) = [])"
  using assms(1)
proof (induction n arbitrary: rtx d)
  case 0
  then show ?case by simp
next
  case (Suc n)
  let ?ssrc = "gst_rtp_buffer_get_ssrc b"
  let ?rtx1 = "rtx\<lparr>ssrc_data := (ssrc_data rtx)(?ssrc \<mapsto> d\<lparr>next_seqnum := next_seqnum d + 1\<rparr>)\<rparr>"
  obtain nb where nb: "gst_rtp_rtx_buffer_new rtx b = Some (?rtx1, nb)"
      "gst_rtp_buffer_get_seq nb = next_seqnum d" "gst_rtp_buffer_get_ssrc nb = rtx_ssrc d"
      "ext nb = gst_memory_copy (ext_mem b) 0 (length (ext b))" "pay nb = GST_WRITE_UINT16_BE [0, 0] 0 (gst_rtp_buffer_get_seq b) @ pay b"
      "pad nb = []"
    using rtx_buffer_new_known [OF Suc.prems] assms(2) by blast
  have "ssrc_data ?rtx1 ?ssrc = Some (d\<lparr>next_seqnum := next_seqnum d + 1\<rparr>)"
    by simp
  from Suc.IH [OF this] obtain rtx' out where o: "do_push ?rtx1 (replicate n b) = Some (rtx', out)"
      "length out = n"
      "\<forall>i<n. gst_rtp_buffer_get_seq (out ! i) = next_seqnum d + 1 + of_nat i \<and>
             gst_rtp_buffer_get_ssrc (out ! i) = rtx_ssrc d \<and>
             ext (out ! i) = gst_memory_copy (ext_mem b) 0 (length (ext b)) \<and>
             pay (out ! i) = GST_WRITE_UINT16_BE [0, 0] 0 (gst_rtp_buffer_get_seq b) @ pay b \<and>
             pad (out ! i) = []"
    by auto
  have d: "do_push rtx (replicate (Suc n) b) = Some (rtx', nb # out)"
    using nb(1) o(1) by simp
  have "gst_rtp_buffer_get_seq ((nb # out) ! i) = next_seqnum d + of_nat i \<and>
        gst_rtp_buffer_get_ssrc ((nb # out) ! i) = rtx_ssrc d \<and>
        ext ((nb # out) ! i) = gst_memory_copy (ext_mem b) 0 (length (ext b)) \<and>
        pay ((nb # out) ! i) = GST_WRITE_UINT16_BE [0, 0] 0 (gst_rtp_buffer_get_seq b) @ pay b \<and>
        pad ((nb # out) ! i) = []" if "i < Suc n" for i
  proof (cases i)
    case 0
    then show ?thesis using nb by simp
  next
    case (Suc j)
    then have "j < n" using that by simp
    then show ?thesis
      using o(3) Suc by (simp add: add.assoc)
  qed
  then show ?case
    using d o(2) by auto
qed

text \<open>
  The sender copies the extension in the same way: for a master packet stored as one memory
  the extension memory of the retransmission packet holds the first bytes of the header.
\<close>

lemma rtx_extension_copied_from_memory_start:
  "map_option (\<lambda>(s, nb). nb) (gst_rtp_rtx_buffer_new (tx_streaming []) master_packet_ext) =
     Some \<lparr>hdr = [0x90, 97, 0x12, 0x34, 0, 0, 0, 160, 0, 0, 0x12, 0x34],
           ext = [0x90, 96, 0, 11, 0, 0, 0, 160], ext_mem = [0x90, 96, 0, 11, 0, 0, 0, 160],
           pay = [0, 11, 1, 2, 3], pad = []\<rparr> \<and>
   ext master_packet_ext = [0xBE, 0xDE, 0, 1, 1, 2, 3, 4] \<and> ext_at 12 master_packet_ext"
  by (simp add: gst_rtp_rtx_buffer_new_def gst_rtp_rtx_send_get_ssrc_data_def tx_streaming_def
      tx_example_def gst_rtp_rtx_send_init_def master_packet_ext_def Let_def
      gst_rtp_buffer_set_padding_def gst_rtp_buffer_set_payload_type_def
      gst_rtp_buffer_set_seq_def gst_rtp_buffer_set_ssrc_def GST_WRITE_UINT16_BE_def
      GST_WRITE_UINT32_BE_def gst_rtp_buffer_get_seq_def gst_rtp_buffer_get_ssrc_def
      gst_rtp_buffer_get_payload_type_def GST_READ_UINT16_BE_def GST_READ_UINT32_BE_def
      gst_memory_copy_def ext_at_def)

subsection \<open>The order of the history\<close>

lemma refresh_history [simp]:
  "history (refresh_rtx_pt_map rtx) s = history rtx s"
  "ssrc_data (refresh_rtx_pt_map rtx) = ssrc_data rtx"
  "rtx_ssrcs (refresh_rtx_pt_map rtx) = rtx_ssrcs rtx"
  "g_random (refresh_rtx_pt_map rtx) = g_random rtx"
  "pending (refresh_rtx_pt_map rtx) = pending rtx"
  "num_rtx_packets (refresh_rtx_pt_map rtx) = num_rtx_packets rtx"
  "num_rtx_requests (refresh_rtx_pt_map rtx) = num_rtx_requests rtx"
  by (simp_all add: refresh_rtx_pt_map_def history_def)

lemma detach_history [simp]:
  "history (detach_pending rtx) s = history rtx s"
  "ssrc_data (detach_pending rtx) = ssrc_data rtx"
  "pending (detach_pending rtx) = []"
  "num_rtx_packets (detach_pending rtx) = num_rtx_packets rtx + of_nat (length (pending rtx))"
  "num_rtx_requests (detach_pending rtx) = num_rtx_requests rtx"
  by (simp_all add: detach_pending_def history_def)

lemma chain_history:
  assumes "gst_rtp_rtx_send_chain rtx buf = Some (rtx', out)"
  shows "history rtx' s = history rtx s \<or>
         (s = gst_rtp_buffer_get_ssrc buf \<and>
          (\<exists>k. history rtx' s = drop k (history rtx s @ [history_item buf])))"
    and "pending rtx' = []" and "num_rtx_requests rtx' = num_rtx_requests rtx"
proof -
  let ?rtx1 = "refresh_rtx_pt_map rtx"
  let ?stored = "rtx_pt_map ?rtx1 (ucast (gst_rtp_buffer_get_payload_type buf)) \<noteq> None"
  obtain rtx2 where s: "(if ?stored then store_in_history ?rtx1 buf else Some ?rtx1) = Some rtx2"
    using assms by (auto simp add: gst_rtp_rtx_send_chain_def Let_def split: option.splits)
  obtain out0 where p: "do_push (detach_pending rtx2) (pending rtx2) = Some (rtx', out0)"
    using assms s by (auto simp add: gst_rtp_rtx_send_chain_def Let_def split: option.splits)
  have h3: "history rtx' s = history rtx2 s" and p3: "pending rtx' = []"
    and n3: "num_rtx_requests rtx' = num_rtx_requests rtx2"
    using do_push_frame [OF p, of s] by simp_all
  show "pending rtx' = []" by (rule p3)
  show "history rtx' s = history rtx s \<or>
         (s = gst_rtp_buffer_get_ssrc buf \<and>
          (\<exists>k. history rtx' s = drop k (history rtx s @ [history_item buf])))"
  proof (cases ?stored)
    case True
    then have st: "store_in_history ?rtx1 buf = Some rtx2"
      using s by simp
    show ?thesis
    proof (cases "s = gst_rtp_buffer_get_ssrc buf")
      case True
      then show ?thesis
        using store_in_history_frame(1) [OF st] h3 by simp
    next
      case False
      then have "history rtx2 s = history ?rtx1 s"
        using store_in_history_frame(2) [OF st] by (simp add: history_def)
      then show ?thesis
        using h3 by simp
    qed
  next
    case False
    then show ?thesis
      using s h3 by auto
  qed
  show "num_rtx_requests rtx' = num_rtx_requests rtx"
  proof (cases ?stored)
    case True
    then have "store_in_history ?rtx1 buf = Some rtx2"
      using s by simp
    from store_in_history_frame(6) [OF this] show ?thesis
      using n3 by simp
  next
    case False
    then show ?thesis
      using s n3 by auto
  qed
qed

lemma history_sorted_drop: "history_sorted q \<Longrightarrow> history_sorted (drop k q)"
  by (simp add: history_sorted_def sorted_wrt_drop)

lemma history_sorted_snoc:
  assumes "history_sorted q"
    and "\<forall>x\<in>set q. 0 \<le> gst_rtp_buffer_compare_seqnum (seqnum x) (seqnum y)"
  shows "history_sorted (q @ [y])"
  using assms by (simp add: history_sorted_def sorted_wrt_append)

lemma request_found:
  assumes "ssrc_data rtx ssrc = Some d"
    and "g_sequence_lookup layout (queue d) (search_item sq) = Some item"
  shows "gst_rtp_rtx_send_src_event layout rtx (GstRTPRetransmissionRequest (Some sq) (Some ssrc)) =
           Some (rtx\<lparr>num_rtx_requests := num_rtx_requests rtx + 1,
                      pending := pending rtx @ [buffer item]\<rparr>, Consumed)"
proof -
  have "gst_rtp_rtx_send_get_ssrc_data (rtx\<lparr>num_rtx_requests := num_rtx_requests rtx + 1\<rparr>) ssrc =
          Some (d, rtx\<lparr>num_rtx_requests := num_rtx_requests rtx + 1\<rparr>)"
    using assms(1) by (simp add: get_ssrc_data_known)
  then show ?thesis
    using assms by (simp add: gst_rtp_rtx_send_src_event_def)
qed

text \<open>A sequence of two items has two layouts, and each of them is one of the spines.\<close>

lemma inorder_Nil: "inorder t = [] \<Longrightarrow> t = Leaf"
  by (cases t) auto

lemma inorder_single: "inorder t = [a] \<Longrightarrow> t = Node Leaf a Leaf"
  by (cases t) (auto simp add: append_eq_Cons_conv dest: inorder_Nil)

lemma layouts_of_two:
  assumes "inorder t = [a, b]"
  shows "t = left_spine [a, b] \<or> t = right_spine [a, b]"
proof (cases t)
  case Leaf
  then show ?thesis using assms by simp
next
  case (Node l x r)
  then have "inorder l @ x # inorder r = [a, b]"
    using assms by simp
  then consider "inorder l = []" "x = a" "inorder r = [b]" | "inorder l = [a]" "x = b" "inorder r = []"
    by (auto simp add: append_eq_Cons_conv)
  then show ?thesis
  proof cases
    case 1
    then show ?thesis
      using Node by (auto simp add: left_spine_def dest: inorder_Nil inorder_single)
  next
    case 2
    then show ?thesis
      using Node by (auto simp add: left_spine_def dest: inorder_Nil inorder_single)
  qed
qed

lemma every_layout_misses_one:
  assumes "inorder t = [history_item (master_packet 12 0), history_item (master_packet 10 160)]"
  shows "node_find t (search_item 12) = None \<or> node_find t (search_item 10) = None"
proof -
  let ?q = "[history_item (master_packet 12 0), history_item (master_packet 10 160)]"
  have l: "node_find (left_spine ?q) (search_item 12) = None"
    by (simp add: left_spine_def search_item_def buffer_queue_items_cmp_def
        gst_rtp_buffer_compare_seqnum_def history_item_def)
  have r: "node_find (right_spine ?q) (search_item 10) = None"
    by (simp add: search_item_def buffer_queue_items_cmp_def gst_rtp_buffer_compare_seqnum_def
        history_item_def)
  from layouts_of_two [OF assms] show ?thesis
    using l r by auto
qed

text \<open>
  Claim C2. The history of an SSRC should be sorted by sequence number after any sequence of
  packets in any order, so that a request for a stored sequence number finds its item. The
  chain function appends every packet at the end of the history, whatever its sequence
  number, and the request handler then searches the history as a sorted sequence. After the
  packets 12 and 10 the history is \<open>[12, 10]\<close>, which is not sorted, and in each of its two
  layouts a stored packet is lost: with 10 at the root the lookup of 12 goes right and finds
  nothing, with 12 at the root the lookup of 10 goes left and finds nothing. The request is
  counted and nothing is appended to the pending queue.
\<close>

theorem history_not_sorted:
  "chain_all tx_example [master_packet 12 0, master_packet 10 160] =
     Some (tx_streaming [history_item (master_packet 12 0), history_item (master_packet 10 160)],
           [master_packet 12 0, master_packet 10 160]) \<and>
   \<not> history_sorted
        (history (tx_streaming [history_item (master_packet 12 0),
                                history_item (master_packet 10 160)]) 0xAAAA) \<and>
   inorder (left_spine [history_item (master_packet 12 0), history_item (master_packet 10 160)]) =
     [history_item (master_packet 12 0), history_item (master_packet 10 160)] \<and>
   gst_rtp_rtx_send_src_event left_spine
       (tx_streaming [history_item (master_packet 12 0), history_item (master_packet 10 160)])
       (GstRTPRetransmissionRequest (Some 12) (Some 0xAAAA)) =
     Some ((tx_streaming [history_item (master_packet 12 0), history_item (master_packet 10 160)])
             \<lparr>num_rtx_requests := 1\<rparr>, Consumed) \<and>
   inorder (right_spine [history_item (master_packet 12 0), history_item (master_packet 10 160)]) =
     [history_item (master_packet 12 0), history_item (master_packet 10 160)] \<and>
   gst_rtp_rtx_send_src_event right_spine
       (tx_streaming [history_item (master_packet 12 0), history_item (master_packet 10 160)])
       (GstRTPRetransmissionRequest (Some 10) (Some 0xAAAA)) =
     Some ((tx_streaming [history_item (master_packet 12 0), history_item (master_packet 10 160)])
             \<lparr>num_rtx_requests := 1\<rparr>, Consumed)"
proof -
  have c: "chain_all tx_example [master_packet 12 0, master_packet 10 160] =
     Some (tx_streaming [history_item (master_packet 12 0), history_item (master_packet 10 160)],
           [master_packet 12 0, master_packet 10 160])"
    by (simp add: sender_defs tx_streaming_def evict_packets.simps evict_time.simps)
  have s: "\<not> history_sorted
        (history (tx_streaming [history_item (master_packet 12 0),
                                history_item (master_packet 10 160)]) 0xAAAA)"
    by (simp add: history_sorted_def history_def tx_streaming_def history_item_def
        gst_rtp_buffer_compare_seqnum_def)
  have l: "inorder (left_spine [history_item (master_packet 12 0), history_item (master_packet 10 160)]) =
     [history_item (master_packet 12 0), history_item (master_packet 10 160)]"
    by (simp add: left_spine_def)
  have e: "gst_rtp_rtx_send_src_event left_spine
       (tx_streaming [history_item (master_packet 12 0), history_item (master_packet 10 160)])
       (GstRTPRetransmissionRequest (Some 12) (Some 0xAAAA)) =
     Some ((tx_streaming [history_item (master_packet 12 0), history_item (master_packet 10 160)])
             \<lparr>num_rtx_requests := 1\<rparr>, Consumed)"
    by (simp add: gst_rtp_rtx_send_src_event_def tx_streaming_def tx_example_def
        gst_rtp_rtx_send_init_def gst_rtp_rtx_send_get_ssrc_data_def g_sequence_lookup_def
        left_spine_def search_item_def buffer_queue_items_cmp_def gst_rtp_buffer_compare_seqnum_def
        history_item_def)
  have r: "inorder (right_spine [history_item (master_packet 12 0), history_item (master_packet 10 160)]) =
     [history_item (master_packet 12 0), history_item (master_packet 10 160)]"
    by simp
  have f: "gst_rtp_rtx_send_src_event right_spine
       (tx_streaming [history_item (master_packet 12 0), history_item (master_packet 10 160)])
       (GstRTPRetransmissionRequest (Some 10) (Some 0xAAAA)) =
     Some ((tx_streaming [history_item (master_packet 12 0), history_item (master_packet 10 160)])
             \<lparr>num_rtx_requests := 1\<rparr>, Consumed)"
    by (simp add: gst_rtp_rtx_send_src_event_def tx_streaming_def tx_example_def
        gst_rtp_rtx_send_init_def gst_rtp_rtx_send_get_ssrc_data_def g_sequence_lookup_def
        search_item_def buffer_queue_items_cmp_def gst_rtp_buffer_compare_seqnum_def
        history_item_def)
  show ?thesis
    using c s l e r f by blast
qed

text \<open>
  What does hold: the chain function leaves a sorted history sorted when the packet that
  arrives has a sequence number that is the same as or later than (RFC 1982, at a distance
  below \<open>2\<^sup>1\<^sup>5\<close>) every sequence number stored for its SSRC; and on a sorted history,
  whatever the layout of GLib's tree, a request whose sequence number is stored finds an item
  of that sequence number and appends its buffer to the pending queue.
\<close>

lemma history_sorted_in_order:
  assumes "gst_rtp_rtx_send_chain rtx buf = Some (rtx', out)"
    and "history_sorted (history rtx ssrc)"
    and "gst_rtp_buffer_get_ssrc buf = ssrc \<longrightarrow>
           (\<forall>x\<in>set (history rtx ssrc).
              0 \<le> gst_rtp_buffer_compare_seqnum (seqnum x) (gst_rtp_buffer_get_seq buf))"
  shows "history_sorted (history rtx' ssrc) \<and>
         (\<forall>layout item sq.
            inorder (layout (history rtx' ssrc)) = history rtx' ssrc \<and>
            item \<in> set (history rtx' ssrc) \<and> seqnum item = ucast sq \<longrightarrow>
            (\<exists>found\<in>set (history rtx' ssrc).
               seqnum found = seqnum item \<and>
               gst_rtp_rtx_send_src_event layout rtx'
                   (GstRTPRetransmissionRequest (Some sq) (Some ssrc)) =
                 Some (rtx'\<lparr>num_rtx_requests := num_rtx_requests rtx' + 1,
                             pending := pending rtx' @ [buffer found]\<rparr>, Consumed)))"
proof
  show sorted: "history_sorted (history rtx' ssrc)"
  proof -
    consider (same) "history rtx' ssrc = history rtx ssrc"
      | (stored) k where "ssrc = gst_rtp_buffer_get_ssrc buf"
          "history rtx' ssrc = drop k (history rtx ssrc @ [history_item buf])"
      using chain_history(1) [OF assms(1), of ssrc] by blast
    then show ?thesis
    proof cases
      case same
      then show ?thesis using assms(2) by simp
    next
      case stored
      have "history_sorted (history rtx ssrc @ [history_item buf])"
        using assms(2,3) stored(1)
        by (intro history_sorted_snoc) (simp_all add: history_item_def)
      then show ?thesis
        unfolding stored(2) by (rule history_sorted_drop)
    qed
  qed
  show "\<forall>layout item sq.
            inorder (layout (history rtx' ssrc)) = history rtx' ssrc \<and>
            item \<in> set (history rtx' ssrc) \<and> seqnum item = ucast sq \<longrightarrow>
            (\<exists>found\<in>set (history rtx' ssrc).
               seqnum found = seqnum item \<and>
               gst_rtp_rtx_send_src_event layout rtx'
                   (GstRTPRetransmissionRequest (Some sq) (Some ssrc)) =
                 Some (rtx'\<lparr>num_rtx_requests := num_rtx_requests rtx' + 1,
                             pending := pending rtx' @ [buffer found]\<rparr>, Consumed))"
  proof (intro allI impI)
    fix layout :: "BufferQueueItem list \<Rightarrow> BufferQueueItem tree"
      and item :: BufferQueueItem and sq :: guint
    assume a: "inorder (layout (history rtx' ssrc)) = history rtx' ssrc \<and>
            item \<in> set (history rtx' ssrc) \<and> seqnum item = ucast sq"
    then obtain d' where d': "ssrc_data rtx' ssrc = Some d'" "queue d' = history rtx' ssrc"
      by (cases "ssrc_data rtx' ssrc") (auto simp add: history_def)
    have "\<exists>found. node_find (layout (history rtx' ssrc)) (search_item sq) = Some found \<and>
            found \<in> set (inorder (layout (history rtx' ssrc))) \<and>
            seqnum found = seqnum (search_item sq)"
      using a sorted by (intro node_find_sorted [of _ item]) (simp_all add: search_item_def)
    then obtain found where f: "node_find (layout (history rtx' ssrc)) (search_item sq) = Some found"
        "found \<in> set (history rtx' ssrc)" "seqnum found = ucast sq"
      using a by (auto simp add: search_item_def)
    have "g_sequence_lookup layout (queue d') (search_item sq) = Some found"
      using f(1) d'(2) by (simp add: g_sequence_lookup_def)
    from request_found [OF d'(1) this] f(2,3) a
    show "\<exists>found\<in>set (history rtx' ssrc).
               seqnum found = seqnum item \<and>
               gst_rtp_rtx_send_src_event layout rtx'
                   (GstRTPRetransmissionRequest (Some sq) (Some ssrc)) =
                 Some (rtx'\<lparr>num_rtx_requests := num_rtx_requests rtx' + 1,
                             pending := pending rtx' @ [buffer found]\<rparr>, Consumed)"
      by auto
  qed
qed

lemma history_sorted_in_order_example:
  "gst_rtp_rtx_send_chain (tx_streaming [history_item (master_packet 10 0)]) (master_packet 11 160) =
     Some (tx_streaming [history_item (master_packet 10 0), history_item (master_packet 11 160)],
           [master_packet 11 160]) \<and>
   history_sorted (history (tx_streaming [history_item (master_packet 10 0)]) 0xAAAA) \<and>
   0 \<le> gst_rtp_buffer_compare_seqnum (seqnum (history_item (master_packet 10 0)))
          (gst_rtp_buffer_get_seq (master_packet 11 160)) \<and>
   history_sorted
     (history (tx_streaming [history_item (master_packet 10 0),
                             history_item (master_packet 11 160)]) 0xAAAA) \<and>
   gst_rtp_rtx_send_src_event right_spine
       (tx_streaming [history_item (master_packet 10 0), history_item (master_packet 11 160)])
       (GstRTPRetransmissionRequest (Some 10) (Some 0xAAAA)) =
     Some ((tx_streaming [history_item (master_packet 10 0), history_item (master_packet 11 160)])
             \<lparr>num_rtx_requests := 1, pending := [master_packet 10 0]\<rparr>, Consumed)"
proof -
  let ?i10 = "history_item (master_packet 10 0)" and ?i11 = "history_item (master_packet 11 160)"
  have c: "gst_rtp_rtx_send_chain (tx_streaming [?i10]) (master_packet 11 160) =
     Some (tx_streaming [?i10, ?i11], [master_packet 11 160])"
    by (simp add: sender_defs tx_streaming_def evict_packets.simps evict_time.simps)
  have h: "history (tx_streaming [?i10]) 0xAAAA = [?i10]"
    by (simp add: history_def tx_streaming_def)
  have s: "history_sorted (history (tx_streaming [?i10]) 0xAAAA)"
    by (simp add: h history_sorted_def)
  have n: "0 \<le> gst_rtp_buffer_compare_seqnum (seqnum ?i10)
          (gst_rtp_buffer_get_seq (master_packet 11 160))"
    by (simp add: history_item_def gst_rtp_buffer_compare_seqnum_def)
  have p: "gst_rtp_buffer_get_ssrc (master_packet 11 160) = 0xAAAA \<longrightarrow>
           (\<forall>x\<in>set (history (tx_streaming [?i10]) 0xAAAA).
              0 \<le> gst_rtp_buffer_compare_seqnum (seqnum x) (gst_rtp_buffer_get_seq (master_packet 11 160)))"
    using n by (simp add: h)
  have e: "gst_rtp_rtx_send_src_event right_spine (tx_streaming [?i10, ?i11])
       (GstRTPRetransmissionRequest (Some 10) (Some 0xAAAA)) =
     Some ((tx_streaming [?i10, ?i11])\<lparr>num_rtx_requests := 1, pending := [master_packet 10 0]\<rparr>,
           Consumed)"
    by (simp add: gst_rtp_rtx_send_src_event_def tx_streaming_def tx_example_def
        gst_rtp_rtx_send_init_def gst_rtp_rtx_send_get_ssrc_data_def g_sequence_lookup_def
        search_item_def buffer_queue_items_cmp_def gst_rtp_buffer_compare_seqnum_def
        history_item_def)
  show ?thesis
    using history_sorted_in_order [OF c s p] c s n e by blast
qed

subsection \<open>Repeated requests\<close>

lemma src_event_times_found:
  assumes "ssrc_data rtx ssrc = Some d"
    and "g_sequence_lookup layout (queue d) (search_item sq) = Some item"
  shows "src_event_times layout rtx (GstRTPRetransmissionRequest (Some sq) (Some ssrc)) n =
           Some (rtx\<lparr>num_rtx_requests := num_rtx_requests rtx + of_nat n,
                      pending := pending rtx @ replicate n (buffer item)\<rparr>,
                 replicate n Consumed)"
  using assms(1)
proof (induction n arbitrary: rtx)
  case 0
  then show ?case by simp
next
  case (Suc n)
  let ?rtx1 = "rtx\<lparr>num_rtx_requests := num_rtx_requests rtx + 1,
                    pending := pending rtx @ [buffer item]\<rparr>"
  have 1: "gst_rtp_rtx_send_src_event layout rtx (GstRTPRetransmissionRequest (Some sq) (Some ssrc)) =
             Some (?rtx1, Consumed)"
    using request_found [OF Suc.prems assms(2)] .
  have "ssrc_data ?rtx1 ssrc = Some d"
    using Suc.prems by simp
  from Suc.IH [OF this] show ?case
    using 1 by (simp add: add.assoc replicate_append_same)
qed

lemma generator_yields_unused_cong:
  "ssrc_data a = ssrc_data b \<Longrightarrow> rtx_ssrcs a = rtx_ssrcs b \<Longrightarrow> g_random a = g_random b \<Longrightarrow>
     generator_yields_unused a = generator_yields_unused b"
  by (simp add: generator_yields_unused_def)

lemma seqnums_distinct:
  fixes s0 :: guint16
  assumes "n \<le> 65536" and "i < n" and "j < n" and "s0 + of_nat i = s0 + of_nat j"
  shows "i = j"
proof -
  have "(of_nat i :: guint16) = of_nat j"
    using assms(4) by simp
  then have "unat (of_nat i :: guint16) = unat (of_nat j :: guint16)"
    by simp
  then show ?thesis
    using assms(1,2,3) by (simp add: unat_of_nat)
qed

text \<open>
  Claim C10. When \<open>n\<close> requests for a sequence number that is present in the history
  arrive before the next master packet, \<open>n\<close> references to the stored buffer should be
  appended to the pending queue and the next call of the chain function should push \<open>n\<close>
  retransmission packets before the master packet. This fails where the lookup misses a
  stored item, which is the defect of claim C2. The packets 12 and 10 leave the history
  \<open>[12, 10]\<close>, in which both sequence numbers are present; with 10 at the root the two
  requests for 12 append nothing, and with 12 at the root the two requests for 10 append
  nothing. The requests are counted, the pending queue stays empty, and the next packet is
  pushed alone, with \<open>num_rtx_packets\<close> still 0.
\<close>

theorem stored_seqnum_not_found:
  "chain_all tx_example [master_packet 12 0, master_packet 10 160] =
     Some (tx_streaming [history_item (master_packet 12 0), history_item (master_packet 10 160)],
           [master_packet 12 0, master_packet 10 160]) \<and>
   history_seqnums (tx_streaming [history_item (master_packet 12 0),
                                   history_item (master_packet 10 160)]) 0xAAAA = [12, 10] \<and>
   src_event_times left_spine
       (tx_streaming [history_item (master_packet 12 0), history_item (master_packet 10 160)])
       (GstRTPRetransmissionRequest (Some 12) (Some 0xAAAA)) 2 =
     Some ((tx_streaming [history_item (master_packet 12 0), history_item (master_packet 10 160)])
             \<lparr>num_rtx_requests := 2\<rparr>, [Consumed, Consumed]) \<and>
   src_event_times right_spine
       (tx_streaming [history_item (master_packet 12 0), history_item (master_packet 10 160)])
       (GstRTPRetransmissionRequest (Some 10) (Some 0xAAAA)) 2 =
     Some ((tx_streaming [history_item (master_packet 12 0), history_item (master_packet 10 160)])
             \<lparr>num_rtx_requests := 2\<rparr>, [Consumed, Consumed]) \<and>
   map_option (\<lambda>(s, out). (out, num_rtx_packets s))
     (gst_rtp_rtx_send_chain
        ((tx_streaming [history_item (master_packet 12 0), history_item (master_packet 10 160)])
           \<lparr>num_rtx_requests := 2\<rparr>)
        (master_packet 13 320)) =
     Some ([master_packet 13 320], 0)"
proof -
  let ?s = "tx_streaming [history_item (master_packet 12 0), history_item (master_packet 10 160)]"
  have a: "chain_all tx_example [master_packet 12 0, master_packet 10 160] =
     Some (?s, [master_packet 12 0, master_packet 10 160])"
    by (simp add: sender_defs tx_streaming_def evict_packets.simps evict_time.simps)
  have h: "history_seqnums ?s 0xAAAA = [12, 10]"
    by (simp add: history_seqnums_def tx_streaming_def history_item_def)
  have "src_event_times left_spine ?s (GstRTPRetransmissionRequest (Some 12) (Some 0xAAAA)) (Suc (Suc 0)) =
     Some (?s\<lparr>num_rtx_requests := 2\<rparr>, [Consumed, Consumed])"
    by (simp add: gst_rtp_rtx_send_src_event_def tx_streaming_def tx_example_def
        gst_rtp_rtx_send_init_def gst_rtp_rtx_send_get_ssrc_data_def g_sequence_lookup_def
        left_spine_def search_item_def buffer_queue_items_cmp_def gst_rtp_buffer_compare_seqnum_def
        history_item_def)
  then have l: "src_event_times left_spine ?s (GstRTPRetransmissionRequest (Some 12) (Some 0xAAAA)) 2 =
     Some (?s\<lparr>num_rtx_requests := 2\<rparr>, [Consumed, Consumed])"
    by (simp only: numeral_2_eq_2)
  have "src_event_times right_spine ?s (GstRTPRetransmissionRequest (Some 10) (Some 0xAAAA)) (Suc (Suc 0)) =
     Some (?s\<lparr>num_rtx_requests := 2\<rparr>, [Consumed, Consumed])"
    by (simp add: gst_rtp_rtx_send_src_event_def tx_streaming_def tx_example_def
        gst_rtp_rtx_send_init_def gst_rtp_rtx_send_get_ssrc_data_def g_sequence_lookup_def
        search_item_def buffer_queue_items_cmp_def gst_rtp_buffer_compare_seqnum_def
        history_item_def)
  then have r: "src_event_times right_spine ?s (GstRTPRetransmissionRequest (Some 10) (Some 0xAAAA)) 2 =
     Some (?s\<lparr>num_rtx_requests := 2\<rparr>, [Consumed, Consumed])"
    by (simp only: numeral_2_eq_2)
  have c: "map_option (\<lambda>(s, out). (out, num_rtx_packets s))
     (gst_rtp_rtx_send_chain (?s\<lparr>num_rtx_requests := 2\<rparr>) (master_packet 13 320)) =
     Some ([master_packet 13 320], 0)"
    by (simp add: sender_defs tx_streaming_def evict_packets.simps evict_time.simps)
  show ?thesis
    using a h l r c by blast
qed

text \<open>
  What does hold: requests are not deduplicated. When \<open>n\<close> requests for the same sequence
  number and SSRC arrive between two master packets and the lookup finds the item (as it
  does on every sorted history), \<open>n\<close> references to its buffer are appended to the pending
  queue and \<open>num_rtx_requests\<close> grows by \<open>n\<close>. The next call of the chain function
  returns, adds \<open>n\<close> to \<open>num_rtx_packets\<close>, empties the pending queue and pushes \<open>n\<close>
  retransmission packets of that buffer before the master packet itself; the \<open>i\<close>-th
  carries the entry's retransmission SSRC and the sequence number \<open>next_seqnum + i\<close> modulo
  \<open>2\<^sup>1\<^sup>6\<close>, so the sequence numbers are pairwise distinct for \<open>n\<close> up to
  \<open>2\<^sup>1\<^sup>6\<close>. Its extension memory holds the first bytes of the memory in which the
  extension of the stored buffer starts.
\<close>

lemma repeated_requests_not_deduplicated:
  assumes "ssrc_data rtx ssrc = Some d"
    and "g_sequence_lookup layout (queue d) (search_item sq) = Some item"
    and "gst_rtp_buffer_get_ssrc (buffer item) = ssrc"
    and "12 \<le> length (hdr (buffer item))"
    and "pending rtx = []"
    and "generator_yields_unused rtx \<or> ssrc_data rtx (gst_rtp_buffer_get_ssrc buf) \<noteq> None"
  shows "\<exists>rtxn rtx' out.
           src_event_times layout rtx (GstRTPRetransmissionRequest (Some sq) (Some ssrc)) n =
             Some (rtxn, replicate n Consumed) \<and>
           pending rtxn = replicate n (buffer item) \<and>
           num_rtx_requests rtxn = num_rtx_requests rtx + of_nat n \<and>
           gst_rtp_rtx_send_chain rtxn buf = Some (rtx', out @ [buf]) \<and>
           length out = n \<and>
           num_rtx_packets rtx' = num_rtx_packets rtx + of_nat n \<and>
           pending rtx' = [] \<and>
           (\<forall>i<n. gst_rtp_buffer_get_seq (out ! i) = next_seqnum d + of_nat i \<and>
                  gst_rtp_buffer_get_ssrc (out ! i) = rtx_ssrc d \<and>
                  ext (out ! i) =
                    gst_memory_copy (ext_mem (buffer item)) 0 (length (ext (buffer item))) \<and>
                  pay (out ! i) =
                    GST_WRITE_UINT16_BE [0, 0] 0 (gst_rtp_buffer_get_seq (buffer item)) @
                    pay (buffer item) \<and>
                  pad (out ! i) = []) \<and>
           (n \<le> 65536 \<longrightarrow> distinct (map gst_rtp_buffer_get_seq out))"
proof -
  let ?b = "buffer item"
  let ?rtxn = "rtx\<lparr>num_rtx_requests := num_rtx_requests rtx + of_nat n,
                    pending := pending rtx @ replicate n ?b\<rparr>"
  have ev: "src_event_times layout rtx (GstRTPRetransmissionRequest (Some sq) (Some ssrc)) n =
              Some (?rtxn, replicate n Consumed)"
    by (rule src_event_times_found [OF assms(1,2)])
  have pn: "pending ?rtxn = replicate n ?b"
    using assms(5) by simp
  let ?rtx1 = "refresh_rtx_pt_map ?rtxn"
  let ?stored = "rtx_pt_map ?rtx1 (ucast (gst_rtp_buffer_get_payload_type buf)) \<noteq> None"
  have g1: "generator_yields_unused ?rtx1 \<or> ssrc_data ?rtx1 (gst_rtp_buffer_get_ssrc buf) \<noteq> None"
    using assms(6) generator_yields_unused_cong [of ?rtx1 rtx] by simp
  obtain rtx2 where s: "(if ?stored then store_in_history ?rtx1 buf else Some ?rtx1) = Some rtx2"
    using store_in_history_returns [OF g1] by (cases ?stored) auto
  have e1: "ssrc_data ?rtx1 ssrc = Some d"
    using assms(1) by simp
  have f2: "(\<exists>d2. ssrc_data rtx2 ssrc = Some d2 \<and> rtx_ssrc d2 = rtx_ssrc d \<and>
                  next_seqnum d2 = next_seqnum d) \<and>
            pending rtx2 = replicate n ?b \<and> num_rtx_packets rtx2 = num_rtx_packets rtx"
  proof (cases ?stored)
    case True
    then have st: "store_in_history ?rtx1 buf = Some rtx2"
      using s by simp
    note f = store_in_history_frame [OF st]
    have "\<exists>d2. ssrc_data rtx2 ssrc = Some d2 \<and> rtx_ssrc d2 = rtx_ssrc d \<and>
                  next_seqnum d2 = next_seqnum d"
    proof (cases "ssrc = gst_rtp_buffer_get_ssrc buf")
      case True
      then show ?thesis using f(3) e1 by auto
    next
      case False
      then show ?thesis using f(2) e1 by auto
    qed
    then show ?thesis
      using f(4,5) pn by simp
  next
    case False
    then have "rtx2 = ?rtx1" using s by simp
    then show ?thesis
      using e1 pn by simp
  qed
  then obtain d2 where d2: "ssrc_data rtx2 ssrc = Some d2" "rtx_ssrc d2 = rtx_ssrc d"
      "next_seqnum d2 = next_seqnum d"
    by blast
  have "ssrc_data (detach_pending rtx2) (gst_rtp_buffer_get_ssrc ?b) = Some d2"
    using d2(1) assms(3) by simp
  from do_push_replicate [OF this assms(4), of n]
  obtain rtx' out where o: "do_push (detach_pending rtx2) (replicate n ?b) = Some (rtx', out)"
      "length out = n"
      "\<forall>i<n. gst_rtp_buffer_get_seq (out ! i) = next_seqnum d2 + of_nat i \<and>
                  gst_rtp_buffer_get_ssrc (out ! i) = rtx_ssrc d2 \<and>
                  ext (out ! i) = gst_memory_copy (ext_mem ?b) 0 (length (ext ?b)) \<and>
                  pay (out ! i) = GST_WRITE_UINT16_BE [0, 0] 0 (gst_rtp_buffer_get_seq ?b) @ pay ?b \<and>
                  pad (out ! i) = []"
    by blast
  have ch: "gst_rtp_rtx_send_chain ?rtxn buf = Some (rtx', out @ [buf])"
    using s o(1) f2 by (simp add: gst_rtp_rtx_send_chain_def Let_def)
  have fr: "pending rtx' = []" "num_rtx_packets rtx' = num_rtx_packets rtx + of_nat n"
    using do_push_frame [OF o(1), of ssrc] f2 by simp_all
  have dist: "distinct (map gst_rtp_buffer_get_seq out)" if "n \<le> 65536"
    unfolding distinct_conv_nth
  proof (intro allI impI)
    fix i j
    assume "i < length (map gst_rtp_buffer_get_seq out)"
      and "j < length (map gst_rtp_buffer_get_seq out)" and "i \<noteq> j"
    then have ij: "i < n" "j < n" "i \<noteq> j"
      using o(2) by simp_all
    then have "next_seqnum d2 + of_nat i \<noteq> next_seqnum d2 + of_nat j"
      using seqnums_distinct [OF that, of i j "next_seqnum d2"] by blast
    then show "map gst_rtp_buffer_get_seq out ! i \<noteq> map gst_rtp_buffer_get_seq out ! j"
      using o(2,3) ij by simp
  qed
  show ?thesis
    using ev pn ch o(2,3) fr dist d2(2,3) assms(5)
    by (intro exI [of _ ?rtxn] exI [of _ rtx'] exI [of _ out]) simp
qed

lemma repeated_requests_not_deduplicated_example:
  "ssrc_data (tx_streaming [history_item (master_packet 10 0), history_item (master_packet 11 160),
                            history_item (master_packet 12 320)]) 0xAAAA =
     Some \<lparr>rtx_ssrc = 0x1234, next_seqnum = 0x1234, clock_rate = 0,
           queue = [history_item (master_packet 10 0), history_item (master_packet 11 160),
                    history_item (master_packet 12 320)]\<rparr> \<and>
   g_sequence_lookup right_spine
     [history_item (master_packet 10 0), history_item (master_packet 11 160),
      history_item (master_packet 12 320)] (search_item 11) =
     Some (history_item (master_packet 11 160)) \<and>
   src_event_times right_spine
     (tx_streaming [history_item (master_packet 10 0), history_item (master_packet 11 160),
                    history_item (master_packet 12 320)])
     (GstRTPRetransmissionRequest (Some 11) (Some 0xAAAA)) 2 =
     Some ((tx_streaming [history_item (master_packet 10 0), history_item (master_packet 11 160),
                          history_item (master_packet 12 320)])
             \<lparr>num_rtx_requests := 2, pending := [master_packet 11 160, master_packet 11 160]\<rparr>,
           [Consumed, Consumed]) \<and>
   map_option (\<lambda>(s, out). (out, num_rtx_packets s, pending s, history_seqnums s 0xAAAA))
     (gst_rtp_rtx_send_chain
        ((tx_streaming [history_item (master_packet 10 0), history_item (master_packet 11 160),
                        history_item (master_packet 12 320)])
           \<lparr>num_rtx_requests := 2, pending := [master_packet 11 160, master_packet 11 160]\<rparr>)
        (master_packet 13 480)) =
     Some ([\<lparr>hdr = [0x80, 97, 0x12, 0x34, 0, 0, 0, 160, 0, 0, 0x12, 0x34], ext = [], ext_mem = [],
             pay = [0, 11, 1, 2, 3], pad = []\<rparr>,
            \<lparr>hdr = [0x80, 97, 0x12, 0x35, 0, 0, 0, 160, 0, 0, 0x12, 0x34], ext = [], ext_mem = [],
             pay = [0, 11, 1, 2, 3], pad = []\<rparr>,
            master_packet 13 480], 2, [], [10, 11, 12, 13])"
proof -
  let ?q = "[history_item (master_packet 10 0), history_item (master_packet 11 160),
             history_item (master_packet 12 320)]"
  let ?d = "\<lparr>rtx_ssrc = 0x1234, next_seqnum = 0x1234, clock_rate = 0, queue = ?q\<rparr>"
  have h1: "ssrc_data (tx_streaming ?q) 0xAAAA = Some ?d"
    by (simp add: tx_streaming_def)
  have h2: "g_sequence_lookup right_spine (queue ?d) (search_item 11) =
      Some (history_item (master_packet 11 160))"
    by (simp add: g_sequence_lookup_def search_item_def buffer_queue_items_cmp_def
        gst_rtp_buffer_compare_seqnum_def history_item_def)
  have h3: "gst_rtp_buffer_get_ssrc (buffer (history_item (master_packet 11 160))) = 0xAAAA"
    by (simp add: history_item_def)
  have h4: "12 \<le> length (hdr (buffer (history_item (master_packet 11 160))))"
    by (simp add: history_item_def master_packet_def GST_WRITE_UINT16_BE_def GST_WRITE_UINT32_BE_def)
  have h5: "pending (tx_streaming ?q) = []"
    by (simp add: tx_streaming_def tx_example_def gst_rtp_rtx_send_init_def)
  have h6: "generator_yields_unused (tx_streaming ?q) \<or>
      ssrc_data (tx_streaming ?q) (gst_rtp_buffer_get_ssrc (master_packet 13 480)) \<noteq> None"
    by (simp add: tx_streaming_def)
  have b: "buffer (history_item (master_packet 11 160)) = master_packet 11 160"
    by (simp add: history_item_def)
  have n: "num_rtx_requests (tx_streaming ?q) = 0"
    by (simp add: tx_streaming_def tx_example_def gst_rtp_rtx_send_init_def)
  have e: "src_event_times right_spine (tx_streaming ?q)
      (GstRTPRetransmissionRequest (Some 11) (Some 0xAAAA)) 2 =
     Some ((tx_streaming ?q)\<lparr>num_rtx_requests := 2,
                               pending := [master_packet 11 160, master_packet 11 160]\<rparr>,
           [Consumed, Consumed])"
    using src_event_times_found [OF h1 h2, of 2] h5 n b
    by (simp add: numeral_2_eq_2)
  have c: "map_option (\<lambda>(s, out). (out, num_rtx_packets s, pending s, history_seqnums s 0xAAAA))
     (gst_rtp_rtx_send_chain
        ((tx_streaming ?q)\<lparr>num_rtx_requests := 2,
                             pending := [master_packet 11 160, master_packet 11 160]\<rparr>)
        (master_packet 13 480)) =
     Some ([\<lparr>hdr = [0x80, 97, 0x12, 0x34, 0, 0, 0, 160, 0, 0, 0x12, 0x34], ext = [], ext_mem = [],
             pay = [0, 11, 1, 2, 3], pad = []\<rparr>,
            \<lparr>hdr = [0x80, 97, 0x12, 0x35, 0, 0, 0, 160, 0, 0, 0x12, 0x34], ext = [], ext_mem = [],
             pay = [0, 11, 1, 2, 3], pad = []\<rparr>,
            master_packet 13 480], 2, [], [10, 11, 12, 13])"
    by (simp add: sender_defs tx_streaming_def evict_packets.simps evict_time.simps
        gst_rtp_rtx_buffer_new_def gst_rtp_buffer_set_padding_def
        gst_rtp_buffer_set_payload_type_def gst_rtp_buffer_set_seq_def gst_rtp_buffer_set_ssrc_def
        master_packet_def GST_WRITE_UINT16_BE_def GST_WRITE_UINT32_BE_def
        gst_rtp_buffer_get_seq_def gst_rtp_buffer_get_ssrc_def gst_rtp_buffer_get_payload_type_def
        gst_rtp_buffer_get_timestamp_def GST_READ_UINT16_BE_def GST_READ_UINT32_BE_def)
  show ?thesis
    using repeated_requests_not_deduplicated [OF h1 h2 h3 h4 h5 h6, of 2] h1 h2 e c
    by simp
qed

subsection \<open>Further facts on the chain function\<close>

text \<open>
  With a clock rate that is not positive and a time bound other than 0 and
  \<^verbatim>\<open>G_MAXUINT32\<close>, the time loop leaves the newest item alone in the history.
\<close>

lemma evict_time_without_clock_rate:
  assumes "sint (clock_rate d) \<le> 0" and "m < 0xFFFFFFFF" and "queue d \<noteq> []"
  shows "evict_time m d = d\<lparr>queue := [last (queue d)]\<rparr>"
  using assms
proof (induction m d rule: evict_time.induct)
  case (1 m d)
  show ?case
  proof (cases "queue d")
    case Nil
    then show ?thesis using 1(4) by simp
  next
    case (Cons a rest)
    show ?thesis
    proof (cases rest)
      case Nil
      then have "gst_rtp_rtx_send_get_ts_diff d = 0"
        using Cons by (simp add: gst_rtp_rtx_send_get_ts_diff_def)
      then have "evict_time m d = d"
        by (subst evict_time.simps) simp
      then show ?thesis
        using Cons Nil by simp
    next
      case c2: (Cons b rest')
      have t: "gst_rtp_rtx_send_get_ts_diff d = 0xFFFFFFFF"
        using ts_diff_without_clock_rate [OF 1(2)] Cons c2 by simp
      then have lt: "m < gst_rtp_rtx_send_get_ts_diff d"
        using 1(3) by simp
      have "evict_time m (d\<lparr>queue := tl (queue d)\<rparr>) =
              d\<lparr>queue := tl (queue d)\<rparr>\<lparr>queue := [last (queue (d\<lparr>queue := tl (queue d)\<rparr>))]\<rparr>"
        using 1(2,3) Cons c2 by (intro 1(1) [OF lt]) simp_all
      then show ?thesis
        using lt Cons c2 by (subst evict_time.simps) simp
    qed
  qed
qed

text \<open>
  With an empty pending queue the chain function returns and pushes the buffer it was given,
  provided the SSRC of the buffer has an entry or the generator will return an unused value.
\<close>

lemma chain_returns:
  assumes "pending rtx = []"
    and "generator_yields_unused rtx \<or> ssrc_data rtx (gst_rtp_buffer_get_ssrc buf) \<noteq> None"
  shows "\<exists>rtx'. gst_rtp_rtx_send_chain rtx buf = Some (rtx', [buf])"
proof -
  let ?rtx1 = "refresh_rtx_pt_map rtx"
  let ?stored = "rtx_pt_map ?rtx1 (ucast (gst_rtp_buffer_get_payload_type buf)) \<noteq> None"
  have g1: "generator_yields_unused ?rtx1 \<or> ssrc_data ?rtx1 (gst_rtp_buffer_get_ssrc buf) \<noteq> None"
    using assms(2) generator_yields_unused_cong [of ?rtx1 rtx] by simp
  obtain rtx2 where s: "(if ?stored then store_in_history ?rtx1 buf else Some ?rtx1) = Some rtx2"
    using store_in_history_returns [OF g1] by (cases ?stored) auto
  have "pending rtx2 = []"
  proof (cases ?stored)
    case True
    then have "store_in_history ?rtx1 buf = Some rtx2" using s by simp
    from store_in_history_frame(4) [OF this] show ?thesis
      using assms(1) by simp
  next
    case False
    then show ?thesis using s assms(1) by auto
  qed
  then show ?thesis
    using s by (simp add: gst_rtp_rtx_send_chain_def Let_def)
qed

end
